theory Spec2Isabelle
  imports Main "HOL-Library.Sublist"
begin

section \<open>The Go library functions the program calls\<close>

text \<open>
  The program is Go; its strings are byte sequences, modelled as \<open>string\<close> (a list of 8-bit
  characters). The functions of the packages \<open>strings\<close> and \<open>path/filepath\<close> that the modelled
  code calls are written out here after the library's documented behaviour, for a host whose
  path separator is the slash (\<open>filepath.Separator = '/'\<close>, no volume names).
\<close>

subsection \<open>Package strings\<close>

definition HasPrefix :: "string \<Rightarrow> string \<Rightarrow> bool" where
  "HasPrefix s pfx \<longleftrightarrow> prefix pfx s"

definition HasSuffix :: "string \<Rightarrow> string \<Rightarrow> bool" where
  "HasSuffix s sfx \<longleftrightarrow> suffix sfx s"

definition TrimPrefix :: "string \<Rightarrow> string \<Rightarrow> string" where
  "TrimPrefix s pfx = (if HasPrefix s pfx then drop (length pfx) s else s)"

definition TrimSuffix :: "string \<Rightarrow> string \<Rightarrow> string" where
  "TrimSuffix s sfx = (if HasSuffix s sfx then take (length s - length sfx) s else s)"

text \<open>\<open>strings.Index\<close>: the position of the first occurrence of \<open>substr\<close>, \<open>None\<close> for \<open>-1\<close>.\<close>

fun Index :: "string \<Rightarrow> string \<Rightarrow> nat option" where
  "Index [] substr = (if substr = [] then Some 0 else None)"
| "Index (c # cs) substr =
     (if prefix substr (c # cs) then Some 0 else map_option Suc (Index cs substr))"

definition Contains :: "string \<Rightarrow> string \<Rightarrow> bool" where
  "Contains s substr \<longleftrightarrow> Index s substr \<noteq> None"

lemma Index_Some_bound: "Index s sep = Some m \<Longrightarrow> m + length sep \<le> length s"
proof (induction s arbitrary: m)
  case Nil
  then show ?case by (simp split: if_splits)
next
  case (Cons c cs)
  show ?case
  proof (cases "prefix sep (c # cs)")
    case True
    with Cons.prems show ?thesis by (auto dest: prefix_length_le)
  next
    case False
    with Cons.prems obtain k where "Index cs sep = Some k" "m = Suc k" by auto
    with Cons.IH [of k] show ?thesis by simp
  qed
qed

text \<open>
  \<open>strings.Split(s, sep)\<close>: cut at each occurrence of \<open>sep\<close>, found left to right and never
  overlapping; with no occurrence the result is the one-element slice holding \<open>s\<close>. (An
  empty separator splits into single characters.)
\<close>

function Split :: "string \<Rightarrow> string \<Rightarrow> string list" where
  "Split s sep =
     (if sep = [] then map (\<lambda>c. [c]) s
      else case Index s sep of
             None \<Rightarrow> [s]
           | Some m \<Rightarrow> take m s # Split (drop (m + length sep) s) sep)"
  by pat_completeness auto
termination
proof (relation "measure (\<lambda>(s, sep). length s)")
  show "wf (measure (\<lambda>(s, sep). length s))" by simp
next
  fix s sep :: string and m
  assume "sep \<noteq> []" and "Index s sep = Some m"
  then have "length s - (m + length sep) < length s"
    by (cases sep) (auto dest: Index_Some_bound)
  then show "((drop (m + length sep) s, sep), (s, sep)) \<in> measure (\<lambda>(s, sep). length s)"
    by simp
qed

declare Split.simps [simp del]

text \<open>\<open>strings.Join(elems, sep)\<close>.\<close>

fun JoinStrings :: "string list \<Rightarrow> string \<Rightarrow> string" where
  "JoinStrings [] sep = []"
| "JoinStrings [e] sep = e"
| "JoinStrings (e # es) sep = e @ sep @ JoinStrings es sep"

subsection \<open>Package path/filepath\<close>

text \<open>The path elements between slashes: \<open>a//b\<close> has the elements \<open>a\<close>, the empty one and \<open>b\<close>.\<close>

fun elements :: "string \<Rightarrow> string \<Rightarrow> string list" where
  "elements cur [] = [rev cur]"
| "elements cur (c # cs) =
     (if c = CHR ''/'' then rev cur # elements [] cs else elements (c # cur) cs)"

text \<open>
  \<open>filepath.Clean\<close> works through the elements left to right, keeping a stack of the elements
  written so far (\<open>out\<close>, innermost first): an empty element and \<open>.\<close> are dropped; \<open>..\<close> removes
  the element before it, is dropped at the root of a rooted path, and is kept at the front of
  a path that is not rooted; every other element is kept.
\<close>

definition cleanStep :: "bool \<Rightarrow> string list \<Rightarrow> string \<Rightarrow> string list" where
  "cleanStep rooted out e =
     (if e = [] \<or> e = ''.'' then out
      else if e = ''..'' then
        (case out of
           [] \<Rightarrow> if rooted then [] else [''..'']
         | t # ts \<Rightarrow> if t = ''..'' then ''..'' # out else ts)
      else e # out)"

definition Clean :: "string \<Rightarrow> string" where
  "Clean path =
     (if path = [] then ''.''
      else let rooted = (hd path = CHR ''/'');
               out = rev (foldl (cleanStep rooted) [] (elements [] path))
           in if rooted then CHR ''/'' # JoinStrings out ''/''
              else if out = [] then ''.'' else JoinStrings out ''/'')"

text \<open>
  \<open>filepath.Join\<close>: empty leading elements are ignored, the rest is joined with slashes and
  cleaned; the result is empty when every element is.
\<close>

fun Join :: "string list \<Rightarrow> string" where
  "Join [] = []"
| "Join (e # es) = (if e = [] then Join es else Clean (JoinStrings (e # es) ''/''))"

text \<open>\<open>filepath.ToSlash\<close> replaces the separator by a slash: the identity on this host.\<close>

definition ToSlash :: "string \<Rightarrow> string" where
  "ToSlash path = path"

text \<open>\<open>filepath.Base\<close>: the last element, after trailing slashes are stripped.\<close>

definition Base :: "string \<Rightarrow> string" where
  "Base path =
     (if path = [] then ''.''
      else let stripped = rev (dropWhile (\<lambda>c. c = CHR ''/'') (rev path));
               last_elem = rev (takeWhile (\<lambda>c. c \<noteq> CHR ''/'') (rev stripped))
           in if last_elem = [] then ''/'' else last_elem)"

text \<open>\<open>filepath.Dir\<close>: all but the last element, cleaned.\<close>

definition Dir :: "string \<Rightarrow> string" where
  "Dir path = Clean (rev (dropWhile (\<lambda>c. c \<noteq> CHR ''/'') (rev path)))"

text \<open>
  \<open>filepath.Rel(basepath, targpath)\<close>. Both paths are cleaned; equal paths give \<open>.\<close>; a
  rooted and an unrooted path cannot be related (an error, \<open>None\<close>). Otherwise the common
  leading elements are skipped; a base whose first differing element is \<open>..\<close> is an error;
  every base element left over becomes a \<open>..\<close>, followed by what is left of the target.
  The program passes the repository root as the base, an absolute path; the properties
  proved below hold whatever \<open>Rel\<close> returns.
\<close>

definition cleanedElements :: "string \<Rightarrow> string list" where
  "cleanedElements p = (if p = [] then [] else if p = ''/'' then [[]] else elements [] p)"

fun relElements :: "string list \<Rightarrow> string list \<Rightarrow> (string list \<times> string list) option" where
  "relElements (b # bs) (t # ts) =
     (if b = t then relElements bs ts
      else if b = ''..'' then None
      else Some (b # bs, t # ts))"
| "relElements bs ts = Some (bs, ts)"

definition Rel :: "string \<Rightarrow> string \<Rightarrow> string option" where
  "Rel basepath targpath =
     (let base = Clean basepath; targ = Clean targpath in
      if targ = base then Some ''.''
      else let base = (if base = ''.'' then [] else base) in
        if (base \<noteq> [] \<and> hd base = CHR ''/'') \<noteq> (targ \<noteq> [] \<and> hd targ = CHR ''/'') then None
        else case relElements (cleanedElements base) (cleanedElements targ) of
               None \<Rightarrow> None
             | Some (bs, ts) \<Rightarrow>
                 if bs = [] then Some (JoinStrings ts ''/'')
                 else Some (JoinStrings (map (\<lambda>_. ''..'') bs @ ts) ''/''))"

subsection \<open>filepath.Match\<close>

text \<open>
  \<open>filepath.Match(pattern, name)\<close> reports whether the whole of \<open>name\<close> matches the shell
  pattern: \<open>*\<close> matches any run of characters other than the slash, \<open>?\<close> one such character,
  \<open>[...]\<close> a character class, a backslash quotes the next character, anything else matches
  itself. A malformed pattern is the error \<open>ErrBadPattern\<close>. The definitions follow the
  library's functions \<open>scanChunk\<close>, \<open>getEsc\<close>, \<open>matchChunk\<close> and \<open>Match\<close>. Where the library
  reads a rune (for \<open>?\<close> and for a character class) the UTF-8 sequence is decoded as
  \<open>utf8.DecodeRuneInString\<close> does. When a chunk fails to match, \<open>Match\<close> answers "no match"
  without looking at the chunks after it.
\<close>

datatype match_error = ErrBadPattern

text \<open>The length of the chunk that \<open>scanChunk\<close> cuts off: up to the next star outside brackets.\<close>

fun scanLen :: "bool \<Rightarrow> string \<Rightarrow> nat" where
  "scanLen inrange [] = 0"
| "scanLen inrange (c # cs) =
     (if c = CHR 0x5C then (case cs of [] \<Rightarrow> 1 | _ # cs' \<Rightarrow> 2 + scanLen inrange cs')
      else if c = CHR ''['' then 1 + scanLen True cs
      else if c = CHR '']'' then 1 + scanLen False cs
      else if c = CHR ''*'' then (if inrange then 1 + scanLen inrange cs else 0)
      else 1 + scanLen inrange cs)"

definition scanChunk :: "string \<Rightarrow> bool \<times> string \<times> string" where
  "scanChunk pattern =
     (let star = (pattern \<noteq> [] \<and> hd pattern = CHR ''*'');
          p = dropWhile (\<lambda>c. c = CHR ''*'') pattern;
          i = scanLen False p
      in (star, take i p, drop i p))"

text \<open>
  \<open>utf8.DecodeRuneInString\<close>: the first rune of the string and the number of bytes it takes.
  A byte below 0x80 is itself; a leading byte from 0xC2 to 0xF4 announces one to three
  continuation bytes, the first of them within the range that leading byte accepts; anything
  else, and a sequence cut short, is \<open>RuneError\<close> of width 1 (width 0 for the empty string).
\<close>

definition RuneError :: nat where
  "RuneError = 0xFFFD"

definition acceptRange :: "nat \<Rightarrow> nat \<times> nat" where
  "acceptRange b0 =
     (if b0 = 0xE0 then (0xA0, 0xBF)
      else if b0 = 0xED then (0x80, 0x9F)
      else if b0 = 0xF0 then (0x90, 0xBF)
      else if b0 = 0xF4 then (0x80, 0x8F)
      else (0x80, 0xBF))"

definition DecodeRuneInString :: "string \<Rightarrow> nat \<times> nat" where
  "DecodeRuneInString s =
     (case map of_char s of
        [] \<Rightarrow> (RuneError, 0)
      | b0 # bs \<Rightarrow>
          if b0 < 0x80 then (b0, 1)
          else if b0 < 0xC2 \<or> 0xF4 < b0 then (RuneError, 1)
          else
            (let sz = (if b0 < 0xE0 then 2 else if b0 < 0xF0 then 3 else (4::nat));
                 lo = fst (acceptRange b0);
                 hi = snd (acceptRange b0)
             in if length s < sz then (RuneError, 1)
                else if bs ! 0 < lo \<or> hi < bs ! 0 then (RuneError, 1)
                else if sz = 2 then ((b0 mod 32) * 64 + bs ! 0 mod 64, 2)
                else if bs ! 1 < 0x80 \<or> 0xBF < bs ! 1 then (RuneError, 1)
                else if sz = 3 then
                  ((b0 mod 16) * 4096 + (bs ! 0 mod 64) * 64 + bs ! 1 mod 64, 3)
                else if bs ! 2 < 0x80 \<or> 0xBF < bs ! 2 then (RuneError, 1)
                else ((b0 mod 8) * 262144 + (bs ! 0 mod 64) * 4096 + (bs ! 1 mod 64) * 64 +
                      bs ! 2 mod 64, 4)))"

lemma DecodeRuneInString_width: "s \<noteq> [] \<Longrightarrow> 0 < snd (DecodeRuneInString s)"
  by (cases s) (simp_all add: DecodeRuneInString_def Let_def)

definition getEsc :: "string \<Rightarrow> match_error + (nat \<times> string)" where
  "getEsc chunk =
     (if chunk = [] \<or> hd chunk = CHR ''-'' \<or> hd chunk = CHR '']'' then Inl ErrBadPattern
      else let chunk1 = (if hd chunk = CHR 0x5C then tl chunk else chunk) in
        if chunk1 = [] then Inl ErrBadPattern
        else
          (let r = fst (DecodeRuneInString chunk1);
               n = snd (DecodeRuneInString chunk1);
               nchunk = drop n chunk1
           in if r = RuneError \<and> n = 1 then Inl ErrBadPattern
              else if nchunk = [] then Inl ErrBadPattern
              else Inr (r, nchunk)))"

lemma getEsc_shorter: "getEsc chunk = Inr (r, nchunk) \<Longrightarrow> length nchunk < length chunk"
proof -
  assume a: "getEsc chunk = Inr (r, nchunk)"
  define chunk1 where "chunk1 = (if hd chunk = CHR 0x5C then tl chunk else chunk)"
  from a have ne: "chunk \<noteq> []" "chunk1 \<noteq> []"
    and n: "nchunk = drop (snd (DecodeRuneInString chunk1)) chunk1" "nchunk \<noteq> []"
    by (auto simp: getEsc_def Let_def chunk1_def split: if_splits)
  from ne(2) have "0 < snd (DecodeRuneInString chunk1)"
    by (rule DecodeRuneInString_width)
  with n have "length nchunk < length chunk1"
    by (cases "snd (DecodeRuneInString chunk1)") auto
  moreover have "length chunk1 \<le> length chunk"
    by (simp add: chunk1_def)
  ultimately show ?thesis by simp
qed

text \<open>The loop of \<open>matchChunk\<close> that reads the ranges of a character class, up to its \<open>]\<close>.\<close>

function parseRanges :: "nat \<Rightarrow> string \<Rightarrow> nat \<Rightarrow> bool \<Rightarrow> match_error + (string \<times> bool)" where
  "parseRanges r chunk nrange matched =
     (if chunk \<noteq> [] \<and> hd chunk = CHR '']'' \<and> nrange > 0 then Inr (tl chunk, matched)
      else case getEsc chunk of
        Inl e \<Rightarrow> Inl e
      | Inr (lo, chunk1) \<Rightarrow>
          if hd chunk1 = CHR ''-'' then
            (case getEsc (tl chunk1) of
               Inl e \<Rightarrow> Inl e
             | Inr (hi, chunk2) \<Rightarrow>
                 parseRanges r chunk2 (nrange + 1) (matched \<or> (lo \<le> r \<and> r \<le> hi)))
          else parseRanges r chunk1 (nrange + 1) (matched \<or> (lo \<le> r \<and> r \<le> lo)))"
  by pat_completeness auto
termination
proof (relation "measure (\<lambda>(r, chunk, nrange, matched). length chunk)")
  show "wf (measure (\<lambda>(r, chunk, nrange, matched). length chunk))" by simp
next
  fix r :: nat and chunk and nrange :: nat and matched x2 lo chunk1 x2a hi chunk2
  assume "getEsc chunk = Inr x2" "(lo, chunk1) = x2" "getEsc (tl chunk1) = Inr x2a"
    "(hi, chunk2) = x2a"
  then have "length chunk1 < length chunk" "length chunk2 < length (tl chunk1)"
    by (auto dest: getEsc_shorter)
  then show "((r, chunk2, nrange + 1, matched \<or> lo \<le> r \<and> r \<le> hi), r, chunk, nrange, matched)
      \<in> measure (\<lambda>(r, chunk, nrange, matched). length chunk)"
    by simp
next
  fix r :: nat and chunk and nrange :: nat and matched x2 lo chunk1
  assume "getEsc chunk = Inr x2" "(lo, chunk1) = x2"
  then have "length chunk1 < length chunk"
    by (auto dest: getEsc_shorter)
  then show "((r, chunk1, nrange + 1, matched \<or> lo \<le> r \<and> r \<le> lo), r, chunk, nrange, matched)
      \<in> measure (\<lambda>(r, chunk, nrange, matched). length chunk)"
    by simp
qed

declare parseRanges.simps [simp del]

lemma parseRanges_shorter:
  "parseRanges r chunk nrange matched = Inr (rest, m) \<Longrightarrow> length rest < length chunk"
proof (induction r chunk nrange matched rule: parseRanges.induct)
  case (1 r chunk nrange matched)
  show ?case
  proof (cases "chunk \<noteq> [] \<and> hd chunk = CHR '']'' \<and> nrange > 0")
    case True
    with "1.prems" have "rest = tl chunk" and "chunk \<noteq> []"
      by (auto simp: parseRanges.simps [of r chunk])
    then show ?thesis by simp
  next
    case False
    with "1.prems" obtain lo chunk1 where esc: "getEsc chunk = Inr (lo, chunk1)"
      by (auto simp: parseRanges.simps [of r chunk] split: sum.splits)
    then have l1: "length chunk1 < length chunk" by (rule getEsc_shorter)
    show ?thesis
    proof (cases "hd chunk1 = CHR ''-''")
      case True
      with "1.prems" False esc obtain hi chunk2 where
        esc2: "getEsc (tl chunk1) = Inr (hi, chunk2)" and
        rec: "parseRanges r chunk2 (nrange + 1) (matched \<or> (lo \<le> r \<and> r \<le> hi)) = Inr (rest, m)"
        by (auto simp: parseRanges.simps [of r chunk] split: sum.splits)
      from "1.IH"(1) [OF False esc refl True esc2 refl rec] getEsc_shorter [OF esc2] l1
      show ?thesis by simp
    next
      case notdash: False
      with "1.prems" False esc have
        rec: "parseRanges r chunk1 (nrange + 1) (matched \<or> (lo \<le> r \<and> r \<le> lo)) = Inr (rest, m)"
        by (auto simp: parseRanges.simps [of r chunk] split: sum.splits)
      from "1.IH"(2) [OF False esc refl notdash rec] l1 show ?thesis by simp
    qed
  qed
qed

text \<open>
  \<open>matchChunk(chunk, s)\<close>: whether \<open>chunk\<close> (which has no star) matches the beginning of \<open>s\<close>,
  and the rest of \<open>s\<close> after it. Once the match has failed (\<open>failed\<close>) the loop goes on over
  the chunk, only to check that it is well formed.
\<close>

function matchChunk :: "bool \<Rightarrow> string \<Rightarrow> string \<Rightarrow> match_error + (string \<times> bool)" where
  "matchChunk failed [] s = (if failed then Inr ([], False) else Inr (s, True))"
| "matchChunk failed (c # chunk) s =
     (let failed1 = (failed \<or> s = []) in
      if c = CHR ''['' then
        (let r = (if failed1 then 0 else fst (DecodeRuneInString s));
             s1 = (if failed1 then s else drop (snd (DecodeRuneInString s)) s);
             negated = (chunk \<noteq> [] \<and> hd chunk = CHR ''^'');
             chunk1 = (if negated then tl chunk else chunk)
         in case parseRanges r chunk1 0 False of
              Inl e \<Rightarrow> Inl e
            | Inr (chunk2, matched) \<Rightarrow> matchChunk (failed1 \<or> matched = negated) chunk2 s1)
      else if c = CHR ''?'' then
        (if failed1 then matchChunk True chunk s
         else matchChunk (hd s = CHR ''/'') chunk (drop (snd (DecodeRuneInString s)) s))
      else if c = CHR 0x5C then
        (case chunk of
           [] \<Rightarrow> Inl ErrBadPattern
         | c1 # chunk1 \<Rightarrow>
             if failed1 then matchChunk True chunk1 s
             else matchChunk (c1 \<noteq> hd s) chunk1 (tl s))
      else (if failed1 then matchChunk True chunk s
            else matchChunk (c \<noteq> hd s) chunk (tl s)))"
  by pat_completeness auto
termination
proof (relation "measure (\<lambda>(failed, chunk, s). length chunk)", goal_cases)
  case 1
  show ?case by simp
next
  case (2 failed c chunk s failed1 r s1 negated chunk1 x2 chunk2 matched)
  then have "length chunk2 < length chunk1" and "length chunk1 \<le> length chunk"
    by (auto dest: parseRanges_shorter)
  then show ?case by simp
qed simp_all

declare matchChunk.simps [simp del]

text \<open>
  The inner loop of \<open>Match\<close> after a star: the chunk is tried one character further at a
  time, never past a slash. \<open>Some t\<close> is a match that leaves \<open>t\<close>; when the chunk is the
  pattern's last (\<open>final\<close>), only a match that uses up the name counts.
\<close>

fun starLoop :: "string \<Rightarrow> bool \<Rightarrow> string \<Rightarrow> match_error + string option" where
  "starLoop chunk final [] = Inr None"
| "starLoop chunk final (c # name) =
     (if c = CHR ''/'' then Inr None
      else case matchChunk False chunk name of
             Inl e \<Rightarrow> Inl e
           | Inr (t, ok) \<Rightarrow>
               if ok then (if final \<and> t \<noteq> [] then starLoop chunk final name else Inr (Some t))
               else starLoop chunk final name)"

lemma scanLen_pos: "p \<noteq> [] \<Longrightarrow> hd p \<noteq> CHR ''*'' \<Longrightarrow> 0 < scanLen inrange p"
  by (cases p) (auto split: list.splits)

lemma scanChunk_shorter:
  assumes "pattern \<noteq> []" and "scanChunk pattern = (star, chunk, rest)"
  shows "length rest < length pattern"
proof (cases "hd pattern = CHR ''*''")
  case True
  with assms(1) have "length (dropWhile (\<lambda>c. c = CHR ''*'') pattern) < length pattern"
    by (cases pattern) (auto simp: less_Suc_eq_le length_dropWhile_le)
  with assms(2) show ?thesis
    by (auto simp: scanChunk_def Let_def)
next
  case False
  with assms(1) have same: "dropWhile (\<lambda>c. c = CHR ''*'') pattern = pattern"
    by (cases pattern) auto
  from assms(1) False have "0 < scanLen False pattern" by (rule scanLen_pos)
  with assms same show ?thesis
    by (auto simp: scanChunk_def Let_def)
qed

function Match :: "string \<Rightarrow> string \<Rightarrow> match_error + bool" where
  "Match pattern name =
     (if pattern = [] then Inr (name = [])
      else case scanChunk pattern of
        (star, chunk, rest) \<Rightarrow>
          if star \<and> chunk = [] then Inr (\<not> Contains name ''/'')
          else
            (case matchChunk False chunk name of
               Inl e \<Rightarrow> Inl e
             | Inr (t, ok) \<Rightarrow>
                 if ok \<and> (t = [] \<or> rest \<noteq> []) then Match rest t
                 else if star then
                   (case starLoop chunk (rest = []) name of
                      Inl e \<Rightarrow> Inl e
                    | Inr (Some t1) \<Rightarrow> Match rest t1
                    | Inr None \<Rightarrow> Inr False)
                 else Inr False))"
  by pat_completeness auto
termination
  by (relation "measure (\<lambda>(pattern, name). length pattern)")
    (auto dest: scanChunk_shorter [OF _ sym])

declare Match.simps [simp del]

section \<open>Stack definition files\<close>

text \<open>
  The external stack definition document (\<open>StackDefinitionFile\<close>) and its stacks
  (\<open>ExternalStackConfig\<close>), field by field. Go's \<open>int\<close> is only compared and copied here, so
  it is an \<open>int\<close>; a Go slice is a list, and a nil slice is the empty list wherever the code
  only takes its length or ranges over it.
\<close>

record AtlantisStackConfig =
  Workflow :: string
  AutoPlan :: bool
  Parallel :: bool
  ApplyRequirements :: "string list"
  ExecutionOrderGroup :: int
  Workspace :: string
  TerraformVersion :: string

record ExternalStackConfig =
  Name :: string
  Description :: string
  Include :: "string list"
  Exclude :: "string list"
  Modules :: "string list"
  DependsOn :: "string list"
  Atlantis :: AtlantisStackConfig

record StackDefinitionFile =
  Version :: int
  Stacks :: "ExternalStackConfig list"

text \<open>
  Go's zero values of the two structs: a struct literal such as
  \<open>ExternalStackConfig{Name: "test", Modules: []string{"app-a"}}\<close> is the zero value with
  the named fields set.
\<close>

definition AtlantisStackConfig_zero :: AtlantisStackConfig where
  "AtlantisStackConfig_zero =
     \<lparr>Workflow = [], AutoPlan = False, Parallel = False, ApplyRequirements = [],
      ExecutionOrderGroup = 0, Workspace = [], TerraformVersion = []\<rparr>"

definition ExternalStackConfig_zero :: ExternalStackConfig where
  "ExternalStackConfig_zero =
     \<lparr>Name = [], Description = [], Include = [], Exclude = [], Modules = [], DependsOn = [],
      Atlantis = AtlantisStackConfig_zero\<rparr>"

subsection \<open>ValidateStackDefinition\<close>

text \<open>
  The error values of \<open>ValidateStackDefinition\<close>, one constructor per \<open>fmt.Errorf\<close> of the
  function, carrying the arguments of its format string:
  \<^item> \<open>UnsupportedVersion v\<close>: "unsupported stack definition version: v (expected 1)";
  \<^item> \<open>NoStacksDefined\<close>: "no stacks defined";
  \<^item> \<open>StackHasNoName i\<close>: "stack at index i has no name";
  \<^item> \<open>DuplicateStackName n\<close>: "duplicate stack name: n";
  \<^item> \<open>MustSpecifyEither n\<close>: "stack 'n' must specify either 'include' patterns or 'modules' list";
  \<^item> \<open>EmptyIncludePattern n\<close>: "stack 'n' has empty include pattern".
  The function returns Go's \<open>error\<close>: \<open>None\<close> is \<open>nil\<close>.
\<close>

datatype validation_error =
    UnsupportedVersion int
  | NoStacksDefined
  | StackHasNoName nat
  | DuplicateStackName string
  | MustSpecifyEither string
  | EmptyIncludePattern string

text \<open>The inner loop over \<open>stack.Include\<close>: true when some pattern is the empty string.\<close>

fun hasEmptyPattern :: "string list \<Rightarrow> bool" where
  "hasEmptyPattern [] = False"
| "hasEmptyPattern (pattern # rest) = (if pattern = [] then True else hasEmptyPattern rest)"

text \<open>
  The loop \<open>for i, stack := range def.Stacks\<close>, with the index \<open>i\<close> and the map
  \<open>stackNames\<close> (a \<open>map[string]bool\<close>, read with the zero value \<open>false\<close> for a missing key)
  as loop state.
\<close>

fun validateStacks :: "nat \<Rightarrow> (string \<Rightarrow> bool) \<Rightarrow> ExternalStackConfig list \<Rightarrow> validation_error option" where
  "validateStacks i stackNames [] = None"
| "validateStacks i stackNames (stack # rest) =
     (if Name stack = [] then Some (StackHasNoName i)
      else if stackNames (Name stack) then Some (DuplicateStackName (Name stack))
      else if length (Include stack) = 0 \<and> length (Modules stack) = 0
        then Some (MustSpecifyEither (Name stack))
      else if hasEmptyPattern (Include stack) then Some (EmptyIncludePattern (Name stack))
      else validateStacks (Suc i) (stackNames (Name stack := True)) rest)"

definition ValidateStackDefinition :: "StackDefinitionFile \<Rightarrow> validation_error option" where
  "ValidateStackDefinition def =
     (if Version def \<noteq> 1 then Some (UnsupportedVersion (Version def))
      else if length (Stacks def) = 0 then Some NoStacksDefined
      else validateStacks 0 (\<lambda>_. False) (Stacks def))"

text \<open>What the checks of one loop iteration require of a stack, apart from the name being new.\<close>

definition stackWellFormed :: "ExternalStackConfig \<Rightarrow> bool" where
  "stackWellFormed stack \<longleftrightarrow>
     Name stack \<noteq> [] \<and> (Include stack \<noteq> [] \<or> Modules stack \<noteq> []) \<and> [] \<notin> set (Include stack)"

section \<open>Assigning modules to stacks\<close>

text \<open>
  The functions below write warnings to the log (\<open>log.Warnf\<close>). The log is the only trace a
  call leaves besides its result, so each function returns the warnings it wrote next to its
  result, in order. A warning is its format with the arguments:
  \<^item> \<open>InvalidGlobPattern p e\<close>: "Invalid glob pattern 'p': e";
  \<^item> \<open>FailedRelativePath m\<close>: "Failed to get relative path for m: ...";
  \<^item> \<open>MultipleStackBlocks f n\<close>: "Multiple stack blocks found in f, using first one: n";
  \<^item> \<open>NoTerragruntHcl f u\<close>: "No terragrunt.hcl found at f for unit u";
  \<^item> \<open>SourceButNoPath u p\<close>: "Unit u has source but no path, using source directly: p";
  \<^item> \<open>NoPathOrSource u\<close>: "Unit u has no path or source, skipping".
\<close>

datatype warning =
    InvalidGlobPattern string match_error
  | FailedRelativePath string
  | MultipleStackBlocks string string
  | NoTerragruntHcl string string
  | SourceButNoPath string string
  | NoPathOrSource string

subsection \<open>matchGlobPattern\<close>

definition matchGlobPattern :: "string \<Rightarrow> string \<Rightarrow> bool \<times> warning list" where
  "matchGlobPattern path pattern =
     (let parts = Split pattern ''**'' in
      if Contains pattern ''**'' \<and> length parts = 2 then
        (let pfx = TrimSuffix (parts ! 0) ''/'';
             sfx = TrimPrefix (parts ! 1) ''/''
         in if pfx \<noteq> [] \<and> \<not> HasPrefix path pfx then (False, [])
            else if sfx \<noteq> [] \<and> \<not> HasSuffix path sfx then (False, [])
            else (True, []))
      else case Match pattern path of
             Inl err \<Rightarrow> (False, [InvalidGlobPattern pattern err])
           | Inr matched \<Rightarrow> (matched, []))"

subsection \<open>MatchModuleToStacks\<close>

text \<open>
  The path of the module relative to the repository root, with forward slashes; when
  \<open>filepath.Rel\<close> fails, the module path itself, and a warning.
\<close>

definition relativePath :: "string \<Rightarrow> string \<Rightarrow> string \<times> warning list" where
  "relativePath gitRoot modulePath =
     (case Rel gitRoot modulePath of
        None \<Rightarrow> (ToSlash modulePath, [FailedRelativePath modulePath])
      | Some relPath \<Rightarrow> (ToSlash relPath, []))"

text \<open>The loop over \<open>stack.Modules\<close>: true at the first listed module that matches.\<close>

fun matchesExplicit :: "string \<Rightarrow> string list \<Rightarrow> bool" where
  "matchesExplicit relPath [] = False"
| "matchesExplicit relPath (explicitModule # rest) =
     (if HasSuffix relPath (ToSlash explicitModule) \<or> relPath = ToSlash explicitModule then True
      else matchesExplicit relPath rest)"

text \<open>
  The loop over \<open>stack.Include\<close>, and the same loop over \<open>stack.Exclude\<close>: the patterns are
  tried in order and the loop breaks at the first that matches.
\<close>

fun matchesAny :: "string \<Rightarrow> string list \<Rightarrow> bool \<times> warning list" where
  "matchesAny relPath [] = (False, [])"
| "matchesAny relPath (pattern # rest) =
     (case matchGlobPattern relPath pattern of
        (matched, w) \<Rightarrow>
          if matched then (True, w)
          else (case matchesAny relPath rest of (found, w') \<Rightarrow> (found, w @ w')))"

text \<open>One iteration of the loop over the stacks: whether the stack's name is appended.\<close>

definition stackMatches :: "string \<Rightarrow> ExternalStackConfig \<Rightarrow> bool \<times> warning list" where
  "stackMatches relPath stack =
     (if length (Modules stack) > 0 then (matchesExplicit relPath (Modules stack), [])
      else case matchesAny relPath (Include stack) of
        (included, w) \<Rightarrow>
          if \<not> included then (False, w)
          else (case matchesAny relPath (Exclude stack) of
                  (excluded, w') \<Rightarrow> (\<not> excluded, w @ w')))"

fun matchStacks :: "string \<Rightarrow> ExternalStackConfig list \<Rightarrow> string list \<times> warning list" where
  "matchStacks relPath [] = ([], [])"
| "matchStacks relPath (stack # rest) =
     (case stackMatches relPath stack of
        (hit, w) \<Rightarrow>
          (case matchStacks relPath rest of
             (matchedStacks, w') \<Rightarrow>
               ((if hit then [Name stack] else []) @ matchedStacks, w @ w')))"

definition MatchModuleToStacks ::
    "string \<Rightarrow> ExternalStackConfig list \<Rightarrow> string \<Rightarrow> string list \<times> warning list" where
  "MatchModuleToStacks modulePath stacks gitRoot =
     (case relativePath gitRoot modulePath of
        (relPath, w) \<Rightarrow>
          (case matchStacks relPath stacks of (matchedStacks, w') \<Rightarrow> (matchedStacks, w @ w')))"

section \<open>Local module sources\<close>

text \<open>
  \<open>tfconfig.LoadModule(path)\<close> reads the Terraform configuration in a directory and returns
  the module with its module calls, and diagnostics. It is the external parser: the functions
  below take it as the parameter \<open>load\<close>. Of a module only \<open>ModuleCalls\<close> is used, a Go map
  from call names to calls that the code ranges over; the list gives the calls in the order
  of that iteration, which Go leaves open, so nothing below depends on it. \<open>HasErrors\<close> is
  true when a diagnostic has the severity \<open>DiagError\<close>.
\<close>

datatype DiagSeverity = DiagError | DiagWarning

record Diagnostic =
  Severity :: DiagSeverity
  Summary :: string
  Detail :: string

record ModuleCall =
  CallName :: string
  Source :: string

record Module =
  ModuleCalls :: "ModuleCall list"

type_synonym LoadModule = "string \<Rightarrow> Module \<times> Diagnostic list"

fun HasErrors :: "Diagnostic list \<Rightarrow> bool" where
  "HasErrors [] = False"
| "HasErrors (diag # diags) = (if Severity diag = DiagError then True else HasErrors diags)"

text \<open>\<open>util.JoinPath\<close> of terragrunt: \<open>filepath.ToSlash(filepath.Join(elem...))\<close>.\<close>

definition JoinPath :: "string list \<Rightarrow> string" where
  "JoinPath elem = ToSlash (Join elem)"

definition localModuleSourcePrefixes :: "string list" where
  "localModuleSourcePrefixes = [''./'', ''../'', [CHR ''.'', CHR 0x5C], [CHR ''.'', CHR ''.'', CHR 0x5C]]"

fun hasAnyPrefix :: "string \<Rightarrow> string list \<Rightarrow> bool" where
  "hasAnyPrefix raw [] = False"
| "hasAnyPrefix raw (pfx # rest) = (if HasPrefix raw pfx then True else hasAnyPrefix raw rest)"

definition isLocalTerraformModuleSource :: "string \<Rightarrow> bool" where
  "isLocalTerraformModuleSource raw = hasAnyPrefix raw localModuleSourcePrefixes"

text \<open>
  The loop over the diagnostics in \<open>parseTerraformLocalModuleSourceOpenTofu\<close> that sets
  \<open>providerRefError\<close>: it looks at the summary of every diagnostic, whatever its severity.
\<close>

fun providerRefError :: "Diagnostic list \<Rightarrow> bool" where
  "providerRefError [] = False"
| "providerRefError (diag # diags) =
     (if Contains (Summary diag) ''Invalid provider reference'' \<or>
         Contains (Summary diag) ''Invalid provider configuration address''
      then True else providerRefError diags)"

text \<open>
  The errors of the two resolvers: \<open>ConfigInspectError diags\<close> is
  "terraform-config-inspect error: ..." of the OpenTofu-aware function, \<open>DiagnosticsError diags\<close>
  is \<open>errors.New(diags.Error())\<close> of the standard one.
\<close>

datatype resolve_error =
    ConfigInspectError "Diagnostic list"
  | DiagnosticsError "Diagnostic list"

definition parseTerraformFilesWithOpenTofuSupport :: "string \<Rightarrow> resolve_error + string list" where
  "parseTerraformFilesWithOpenTofuSupport path = Inr [''*.tf*'']"

text \<open>
  \<open>sourceMap\<close> is a \<open>map[string]bool\<close> used as a set of patterns, and the result is its keys
  in the order of Go's map iteration, which is not specified. The model keeps the keys in a
  duplicate-free list, in the order of insertion: \<open>sourceMap[k] = true\<close> is \<open>setKey\<close>. The list
  of a result is therefore one of the orders the program may return; what the program fixes
  is the set of its elements and that no element occurs twice.
\<close>

definition setKey :: "string list \<Rightarrow> string \<Rightarrow> string list" where
  "setKey sourceMap k = (if k \<in> set sourceMap then sourceMap else sourceMap @ [k])"

text \<open>
  The functions are recursive along the local module calls, and nothing bounds the recursion
  beforehand. The model counts the depth of the calls: the first argument is the number of
  nested calls that are allowed, and the result \<open>None\<close> says that this depth was not enough. A
  call of the program returns \<open>r\<close> when some depth gives \<open>Some r\<close>; when every depth gives
  \<open>None\<close> the program recurses without end.

  \<open>resolveCallsOpenTofu\<close> is the loop \<open>for _, mc := range module.ModuleCalls\<close> of
  \<open>parseTerraformLocalModuleSourceOpenTofu\<close>, with \<open>sourceMap\<close> as its state.
\<close>

fun parseTerraformLocalModuleSourceOpenTofu ::
      "nat \<Rightarrow> LoadModule \<Rightarrow> string \<Rightarrow> (resolve_error + string list) option"
  and resolveCallsOpenTofu ::
      "nat \<Rightarrow> LoadModule \<Rightarrow> string \<Rightarrow> ModuleCall list \<Rightarrow> string list \<Rightarrow>
         (resolve_error + string list) option" where
  "parseTerraformLocalModuleSourceOpenTofu 0 load path = None"
| "parseTerraformLocalModuleSourceOpenTofu (Suc depth) load path =
     (case load path of
        (module, diags) \<Rightarrow>
          if HasErrors diags then
            (if \<not> providerRefError diags then Some (Inl (ConfigInspectError diags))
             else Some (parseTerraformFilesWithOpenTofuSupport path))
          else resolveCallsOpenTofu depth load path (ModuleCalls module) [])"
| "resolveCallsOpenTofu depth load path [] sourceMap = Some (Inr sourceMap)"
| "resolveCallsOpenTofu depth load path (mc # rest) sourceMap =
     (if isLocalTerraformModuleSource (Source mc) then
        (let modulePath = JoinPath [path, Source mc];
             modulePathGlob = JoinPath [modulePath, ''*.tf*'']
         in if modulePathGlob \<in> set sourceMap
            then resolveCallsOpenTofu depth load path rest sourceMap
            else (case parseTerraformLocalModuleSourceOpenTofu depth load modulePath of
                    None \<Rightarrow> None
                  | Some (Inl err) \<Rightarrow> Some (Inl err)
                  | Some (Inr subSources) \<Rightarrow>
                      resolveCallsOpenTofu depth load path rest
                        (foldl setKey (setKey sourceMap modulePathGlob) subSources)))
      else resolveCallsOpenTofu depth load path rest sourceMap)"

text \<open>
  \<open>parseTerraformLocalModuleSource\<close> tries the OpenTofu-aware function first and returns its
  result when that is not an error; otherwise it loads the module again and runs the same
  loop, \<open>resolveCalls\<close>, recursing into itself.
\<close>

fun parseTerraformLocalModuleSource ::
      "nat \<Rightarrow> LoadModule \<Rightarrow> string \<Rightarrow> (resolve_error + string list) option"
  and resolveCalls ::
      "nat \<Rightarrow> LoadModule \<Rightarrow> string \<Rightarrow> ModuleCall list \<Rightarrow> string list \<Rightarrow>
         (resolve_error + string list) option" where
  "parseTerraformLocalModuleSource 0 load path = None"
| "parseTerraformLocalModuleSource (Suc depth) load path =
     (case parseTerraformLocalModuleSourceOpenTofu depth load path of
        None \<Rightarrow> None
      | Some (Inr sources) \<Rightarrow> Some (Inr sources)
      | Some (Inl err) \<Rightarrow>
          (case load path of
             (module, diags) \<Rightarrow>
               if HasErrors diags then Some (Inl (DiagnosticsError diags))
               else resolveCalls depth load path (ModuleCalls module) []))"
| "resolveCalls depth load path [] sourceMap = Some (Inr sourceMap)"
| "resolveCalls depth load path (mc # rest) sourceMap =
     (if isLocalTerraformModuleSource (Source mc) then
        (let modulePath = JoinPath [path, Source mc];
             modulePathGlob = JoinPath [modulePath, ''*.tf*'']
         in if modulePathGlob \<in> set sourceMap
            then resolveCalls depth load path rest sourceMap
            else (case parseTerraformLocalModuleSource depth load modulePath of
                    None \<Rightarrow> None
                  | Some (Inl err) \<Rightarrow> Some (Inl err)
                  | Some (Inr subSources) \<Rightarrow>
                      resolveCalls depth load path rest
                        (foldl setKey (setKey sourceMap modulePathGlob) subSources)))
      else resolveCalls depth load path rest sourceMap)"

subsection \<open>Example configurations\<close>

text \<open>
  Two file trees as the parser reports them. In the first, \<open>/repo/tofu\<close> fails with the
  provider-reference diagnostic and \<open>/repo/broken\<close> with a syntax error, \<open>/repo/app\<close> calls
  only a registry module, and \<open>/repo/live\<close> calls the local module \<open>./modules/db\<close> twice,
  which calls \<open>../net\<close>. In the second, \<open>/repo/a\<close> and \<open>/repo/b\<close> call each other. A
  directory that is not there fails to load.
\<close>

definition readError :: Diagnostic where
  "readError =
     \<lparr>Severity = DiagError, Summary = ''Failed to read module directory'',
      Detail = ''Module directory does not exist or cannot be read.''\<rparr>"

definition exampleModules :: LoadModule where
  "exampleModules path =
     (if path = ''/repo/tofu'' then
        (\<lparr>ModuleCalls = []\<rparr>,
         [\<lparr>Severity = DiagError, Summary = ''Invalid provider reference'',
           Detail = ''Provider argument requires a provider name followed by an optional alias.''\<rparr>])
      else if path = ''/repo/broken'' then
        (\<lparr>ModuleCalls = []\<rparr>,
         [\<lparr>Severity = DiagError, Summary = ''Argument or block definition required'',
           Detail = ''An argument or block definition is required here.''\<rparr>])
      else if path = ''/repo/app'' then
        (\<lparr>ModuleCalls = [\<lparr>CallName = ''vpc'', Source = ''terraform-aws-modules/vpc/aws''\<rparr>]\<rparr>, [])
      else if path = ''/repo/live'' then
        (\<lparr>ModuleCalls =
            [\<lparr>CallName = ''db'', Source = ''./modules/db''\<rparr>,
             \<lparr>CallName = ''replica'', Source = ''./modules/db''\<rparr>,
             \<lparr>CallName = ''vpc'', Source = ''terraform-aws-modules/vpc/aws''\<rparr>]\<rparr>, [])
      else if path = ''/repo/live/modules/db'' then
        (\<lparr>ModuleCalls = [\<lparr>CallName = ''net'', Source = ''../net''\<rparr>]\<rparr>, [])
      else if path = ''/repo/live/modules/net'' then (\<lparr>ModuleCalls = []\<rparr>, [])
      else (\<lparr>ModuleCalls = []\<rparr>, [readError]))"

definition exampleRank :: "string \<Rightarrow> nat" where
  "exampleRank path =
     (if path = ''/repo/live'' then 2 else if path = ''/repo/live/modules/db'' then 1 else 0)"

definition cyclicModules :: LoadModule where
  "cyclicModules path =
     (if path = ''/repo/a'' then (\<lparr>ModuleCalls = [\<lparr>CallName = ''b'', Source = ''../b''\<rparr>]\<rparr>, [])
      else if path = ''/repo/b'' then (\<lparr>ModuleCalls = [\<lparr>CallName = ''a'', Source = ''../a''\<rparr>]\<rparr>, [])
      else (\<lparr>ModuleCalls = []\<rparr>, [readError]))"

text \<open>
  The first tree with the two modules of the second added to it: a repository that holds a
  cycle of local references next to modules that have nothing to do with it.
\<close>

definition mixedModules :: LoadModule where
  "mixedModules path =
     (if path = ''/repo/a'' \<or> path = ''/repo/b'' then cyclicModules path
      else exampleModules path)"

section \<open>Stacks and projects\<close>

text \<open>
  The internal \<open>Stack\<close> and its \<open>StackAtlantisConfig\<close>. Several structs of the program share
  field names (\<open>Name\<close>, \<open>Workflow\<close>, \<open>Modules\<close>, ...); from here on a field \<open>F\<close> of the struct
  \<open>T\<close> is the selector \<open>T_F\<close>.
\<close>

record StackAtlantisConfig =
  StackAtlantisConfig_Workflow :: string
  StackAtlantisConfig_AutoPlan :: bool
  StackAtlantisConfig_Parallel :: bool
  StackAtlantisConfig_ApplyRequirements :: "string list"
  StackAtlantisConfig_Workspace :: string
  StackAtlantisConfig_TerraformVersion :: string

record Stack =
  Stack_Name :: string
  Stack_Description :: string
  Stack_Modules :: "string list"
  Stack_Dependencies :: "string list"
  Stack_AtlantisConfig :: StackAtlantisConfig
  Stack_ExecutionOrder :: int
  Stack_Source :: string

definition StackAtlantisConfig_zero :: StackAtlantisConfig where
  "StackAtlantisConfig_zero =
     \<lparr>StackAtlantisConfig_Workflow = [], StackAtlantisConfig_AutoPlan = False,
      StackAtlantisConfig_Parallel = False, StackAtlantisConfig_ApplyRequirements = [],
      StackAtlantisConfig_Workspace = [], StackAtlantisConfig_TerraformVersion = []\<rparr>"

subsection \<open>Stack marker files: ParseStackHclFile\<close>

text \<open>
  The blocks decoded from a \<open>terragrunt.stack.hcl\<close> file, in the order of declaration. A
  pointer field (\<open>*string\<close>, \<open>*StackBlock\<close>) is an option, \<open>None\<close> for \<open>nil\<close>; the \<open>Remain\<close>
  bodies are never read and are left out.
\<close>

record UnitBlock =
  UnitBlock_Name :: string
  UnitBlock_Source :: "string option"
  UnitBlock_Path :: "string option"

record StackBlock =
  StackBlock_Name :: string
  StackBlock_Description :: "string option"

record ParsedStackHcl =
  ParsedStackHcl_Units :: "UnitBlock list"
  ParsedStackHcl_Stacks :: "StackBlock list"

record StackHclDefinition =
  StackHclDefinition_FilePath :: string
  StackHclDefinition_Units :: "UnitBlock list"
  StackHclDefinition_StackBlock :: "StackBlock option"

text \<open>
  Reading and decoding the file is the work of the operating system and of the HCL library.
  They are the fields of \<open>HclWorld\<close>, over a type \<open>'f\<close> of parsed files:
  \<^item> \<open>notExist p\<close>: \<open>os.Stat(p)\<close> fails with an error for which \<open>os.IsNotExist\<close> holds;
  \<^item> \<open>ReadFile p\<close>: the contents, \<open>None\<close> for an error;
  \<^item> \<open>ParseJSON\<close> and \<open>ParseHCL\<close> of the parser, on the contents and the file name: a file,
    diagnostics with errors, or a panic;
  \<^item> \<open>evalContextFails p\<close>: \<open>createTerragruntEvalContext\<close> returns an error;
  \<^item> \<open>DecodeBody f\<close>: the decoded blocks, \<open>None\<close> for diagnostics with errors.
\<close>

datatype 'f parse_outcome = ParsedFile 'f | ParseDiagnostics | ParsePanic

record 'f HclWorld =
  notExist :: "string \<Rightarrow> bool"
  ReadFile :: "string \<Rightarrow> string option"
  ParseJSON :: "string \<Rightarrow> string \<Rightarrow> 'f parse_outcome"
  ParseHCL :: "string \<Rightarrow> string \<Rightarrow> 'f parse_outcome"
  evalContextFails :: "string \<Rightarrow> bool"
  DecodeBody :: "'f \<Rightarrow> ParsedStackHcl option"

text \<open>
  The errors of \<open>ParseStackHclFile\<close>, one for each of its \<open>fmt.Errorf\<close>, and \<open>NilDereference\<close>
  for the run-time panic of \<open>file.Body\<close> on a nil file.
\<close>

datatype stack_hcl_error =
    StackHclNotFound string
  | FailedToRead
  | FailedToParse
  | FailedEvalContext
  | FailedToDecode
  | NilDereference

text \<open>\<open>filepath.Ext\<close>: the suffix of the last path element from its last dot on.\<close>

definition Ext :: "string \<Rightarrow> string" where
  "Ext path =
     (let last_elem = rev (takeWhile (\<lambda>c. c \<noteq> CHR ''/'') (rev path)) in
      if CHR ''.'' \<in> set last_elem
      then CHR ''.'' # rev (takeWhile (\<lambda>c. c \<noteq> CHR ''.'') (rev last_elem))
      else [])"

text \<open>
  \<open>parseHclForStack\<close> recovers from a panic of the parser, logs it, and then returns its
  zero results: a nil file and a nil error, here \<open>Inr None\<close>.
\<close>

definition parseHclForStack :: "'f HclWorld \<Rightarrow> string \<Rightarrow> string \<Rightarrow> stack_hcl_error + 'f option" where
  "parseHclForStack w hcl filename =
     (case (if Ext filename = ''.json'' then ParseJSON w hcl filename else ParseHCL w hcl filename) of
        ParsedFile file \<Rightarrow> Inr (Some file)
      | ParseDiagnostics \<Rightarrow> Inl FailedToParse
      | ParsePanic \<Rightarrow> Inr None)"

text \<open>The first part of \<open>ParseStackHclFile\<close>, up to the decoded blocks.\<close>

definition decodeStackHcl :: "'f HclWorld \<Rightarrow> string \<Rightarrow> stack_hcl_error + ParsedStackHcl" where
  "decodeStackHcl w path =
     (if notExist w path then Inl (StackHclNotFound path)
      else case ReadFile w path of
        None \<Rightarrow> Inl FailedToRead
      | Some configString \<Rightarrow>
          (case parseHclForStack w configString path of
             Inl e \<Rightarrow> Inl e
           | Inr file \<Rightarrow>
               if evalContextFails w path then Inl FailedEvalContext
               else (case file of
                       None \<Rightarrow> Inl NilDereference
                     | Some f \<Rightarrow>
                         (case DecodeBody w f of
                            None \<Rightarrow> Inl FailedToDecode
                          | Some parsed \<Rightarrow> Inr parsed))))"

text \<open>
  The second part: the stack block, if any, is the first one, and more than one is a warning.
\<close>

definition extractStackBlock :: "string \<Rightarrow> ParsedStackHcl \<Rightarrow> StackHclDefinition \<times> warning list" where
  "extractStackBlock path parsed =
     (case ParsedStackHcl_Stacks parsed of
        [] \<Rightarrow>
          (\<lparr>StackHclDefinition_FilePath = path,
            StackHclDefinition_Units = ParsedStackHcl_Units parsed,
            StackHclDefinition_StackBlock = None\<rparr>, [])
      | stackBlock # others \<Rightarrow>
          (\<lparr>StackHclDefinition_FilePath = path,
            StackHclDefinition_Units = ParsedStackHcl_Units parsed,
            StackHclDefinition_StackBlock = Some stackBlock\<rparr>,
           if length (ParsedStackHcl_Stacks parsed) > 1
           then [MultipleStackBlocks path (StackBlock_Name stackBlock)] else []))"

definition ParseStackHclFile ::
    "'f HclWorld \<Rightarrow> string \<Rightarrow> stack_hcl_error + StackHclDefinition \<times> warning list" where
  "ParseStackHclFile w path =
     (case decodeStackHcl w path of
        Inl e \<Rightarrow> Inl e
      | Inr parsed \<Rightarrow> Inr (extractStackBlock path parsed))"

subsection \<open>ConvertStackHclToStacks\<close>

text \<open>
  The path of one unit: \<open>None\<close> when the unit is skipped. \<open>exists_not\<close> is \<open>os.Stat\<close> with
  \<open>os.IsNotExist\<close>, as above.
\<close>

definition unitPathOf :: "(string \<Rightarrow> bool) \<Rightarrow> string \<Rightarrow> UnitBlock \<Rightarrow> string option \<times> warning list" where
  "unitPathOf exists_not stackDir unit =
     (case UnitBlock_Path unit of
        Some p \<Rightarrow>
          (let unitPath = Join [stackDir, p];
               terragruntFile = Join [unitPath, ''terragrunt.hcl'']
           in if exists_not terragruntFile then
                (if Base unitPath = ''terragrunt.hcl'' then (Some (Dir unitPath), [])
                 else (Some unitPath, [NoTerragruntHcl terragruntFile (UnitBlock_Name unit)]))
              else (Some unitPath, []))
      | None \<Rightarrow>
          (case UnitBlock_Source unit of
             Some src \<Rightarrow> (Some src, [SourceButNoPath (UnitBlock_Name unit) src])
           | None \<Rightarrow> (None, [NoPathOrSource (UnitBlock_Name unit)])))"

text \<open>The loop over \<open>def.Units\<close> that collects \<open>unitPaths\<close>.\<close>

fun unitPaths ::
    "(string \<Rightarrow> bool) \<Rightarrow> string \<Rightarrow> string \<Rightarrow> UnitBlock list \<Rightarrow> string list \<times> warning list" where
  "unitPaths exists_not gitRoot stackDir [] = ([], [])"
| "unitPaths exists_not gitRoot stackDir (unit # rest) =
     (case unitPathOf exists_not stackDir unit of
        (found, w) \<Rightarrow>
          (case unitPaths exists_not gitRoot stackDir rest of
             (paths, w') \<Rightarrow>
               (case found of
                  None \<Rightarrow> (paths, w @ w')
                | Some unitPath \<Rightarrow>
                    (let relPath = (case Rel gitRoot unitPath of None \<Rightarrow> unitPath | Some r \<Rightarrow> r)
                     in (ToSlash relPath # paths, w @ w')))))"

definition stackNameOf :: "StackHclDefinition \<Rightarrow> string" where
  "stackNameOf def =
     (case StackHclDefinition_StackBlock def of
        Some stackBlock \<Rightarrow> StackBlock_Name stackBlock
      | None \<Rightarrow>
          if length (StackHclDefinition_Units def) > 0
          then Base (Dir (StackHclDefinition_FilePath def))
          else StackHclDefinition_FilePath def)"

definition convertDefinition ::
    "(string \<Rightarrow> bool) \<Rightarrow> string \<Rightarrow> StackHclDefinition \<Rightarrow> Stack \<times> warning list" where
  "convertDefinition exists_not gitRoot def =
     (case unitPaths exists_not gitRoot (Dir (StackHclDefinition_FilePath def))
             (StackHclDefinition_Units def) of
        (paths, w) \<Rightarrow>
          (\<lparr>Stack_Name = stackNameOf def,
            Stack_Description =
              (case StackHclDefinition_StackBlock def of
                 None \<Rightarrow> []
               | Some stackBlock \<Rightarrow>
                   (case StackBlock_Description stackBlock of None \<Rightarrow> [] | Some d \<Rightarrow> d)),
            Stack_Modules = paths,
            Stack_Dependencies = [],
            Stack_AtlantisConfig = StackAtlantisConfig_zero,
            Stack_ExecutionOrder = 0,
            Stack_Source = ''terragrunt.stack.hcl''\<rparr>, w))"

fun ConvertStackHclToStacks ::
    "(string \<Rightarrow> bool) \<Rightarrow> StackHclDefinition list \<Rightarrow> string \<Rightarrow> Stack list \<times> warning list" where
  "ConvertStackHclToStacks exists_not [] gitRoot = ([], [])"
| "ConvertStackHclToStacks exists_not (def # definitions) gitRoot =
     (case convertDefinition exists_not gitRoot def of
        (stack, w) \<Rightarrow>
          (case ConvertStackHclToStacks exists_not definitions gitRoot of
             (stacks, w') \<Rightarrow> (stack # stacks, w @ w')))"

subsection \<open>An example marker file\<close>

text \<open>
  A world in which \<open>/repo/envs/prod/terragrunt.stack.hcl\<close> exists and decodes to one unit
  and the two stack blocks \<open>production\<close> and \<open>staging\<close>; a parsed file is its decoded blocks.
\<close>

definition exampleWorld :: "ParsedStackHcl HclWorld" where
  "exampleWorld =
     \<lparr>notExist = (\<lambda>p. p \<noteq> ''/repo/envs/prod/terragrunt.stack.hcl''),
      ReadFile = (\<lambda>p. Some ''unit vpc ... stack production ... stack staging ...''),
      ParseJSON = (\<lambda>hcl filename. ParseDiagnostics),
      ParseHCL = (\<lambda>hcl filename. ParsedFile
        \<lparr>ParsedStackHcl_Units =
           [\<lparr>UnitBlock_Name = ''vpc'', UnitBlock_Source = None, UnitBlock_Path = Some ''vpc''\<rparr>],
         ParsedStackHcl_Stacks =
           [\<lparr>StackBlock_Name = ''production'', StackBlock_Description = Some ''Production environment''\<rparr>,
            \<lparr>StackBlock_Name = ''staging'', StackBlock_Description = None\<rparr>]\<rparr>),
      evalContextFails = (\<lambda>p. False),
      DecodeBody = Some\<rparr>"

subsection \<open>GenerateStackProject\<close>

record StackManagerConfig =
  StackManagerConfig_GitRoot :: string
  StackManagerConfig_DefinitionFile :: string
  StackManagerConfig_InferFromDir :: bool
  StackManagerConfig_DirectoryDepth :: int
  StackManagerConfig_AllowMultiStack :: bool
  StackManagerConfig_StackMarkerFile :: string
  StackManagerConfig_ValidateCoverage :: bool

record StackManager =
  StackManager_config :: StackManagerConfig
  StackManager_stacks :: "Stack list"
  StackManager_moduleToStacks :: "string \<rightharpoonup> string list"
  StackManager_stackToModules :: "string \<rightharpoonup> string list"

text \<open>
  Modelled from the spec: the declarations of \<open>AtlantisProject\<close> and \<open>AutoplanConfig\<close> are not
  among the sources. The specification's project record has a directory, a name, a workflow,
  a workspace, a Terraform version, a watch-pattern list, and three optional fields: the
  apply-requirement list, the execution-order group and the depends_on list. The function
  assigns the first two of these through pointers (\<open>&stack...\<close>) and leaves all three
  unassigned when unset; each is an option here, \<open>None\<close> for the field left at \<open>nil\<close>.
\<close>

record AutoplanConfig =
  AutoplanConfig_Enabled :: bool
  AutoplanConfig_WhenModified :: "string list"

record AtlantisProject =
  AtlantisProject_Dir :: string
  AtlantisProject_Name :: string
  AtlantisProject_Workflow :: string
  AtlantisProject_Workspace :: string
  AtlantisProject_TerraformVersion :: string
  AtlantisProject_Autoplan :: AutoplanConfig
  AtlantisProject_ApplyRequirements :: "string list option"
  AtlantisProject_ExecutionOrderGroup :: "int option"
  AtlantisProject_DependsOn :: "string list option"

text \<open>\<open>findCommonParent\<close> is a stub in the source: it returns \<open>.\<close> for every list.\<close>

definition findCommonParent :: "StackManager \<Rightarrow> string list \<Rightarrow> string" where
  "findCommonParent sm modules = ''.''"

text \<open>
  The loop over \<open>stack.Dependencies\<close>: the modules of every dependency stack that
  \<open>sm.stackToModules\<close> knows, in order.
\<close>

fun dependencyModules :: "(string \<rightharpoonup> string list) \<Rightarrow> string list \<Rightarrow> string list" where
  "dependencyModules stackToModules [] = []"
| "dependencyModules stackToModules (depStack # rest) =
     (case stackToModules depStack of
        Some modules \<Rightarrow> modules @ dependencyModules stackToModules rest
      | None \<Rightarrow> dependencyModules stackToModules rest)"

text \<open>
  \<open>GenerateStackProject\<close> always returns a nil error; the model returns the project. The
  helper \<open>uniqueStrings\<close> is not among the sources and is a parameter.
\<close>

definition GenerateStackProject ::
    "(string list \<Rightarrow> string list) \<Rightarrow> StackManager \<Rightarrow> Stack \<Rightarrow> AtlantisProject" where
  "GenerateStackProject uniqueStrings sm stack =
     (let allDependencies =
            [''*.hcl'', ''*.tf*'', ''**/*.hcl'', ''**/*.tf*''] @
            dependencyModules (StackManager_stackToModules sm) (Stack_Dependencies stack);
          stackDir = findCommonParent sm (Stack_Modules stack)
      in \<lparr>AtlantisProject_Dir = stackDir,
          AtlantisProject_Name = Stack_Name stack,
          AtlantisProject_Workflow = StackAtlantisConfig_Workflow (Stack_AtlantisConfig stack),
          AtlantisProject_Workspace = StackAtlantisConfig_Workspace (Stack_AtlantisConfig stack),
          AtlantisProject_TerraformVersion =
            StackAtlantisConfig_TerraformVersion (Stack_AtlantisConfig stack),
          AtlantisProject_Autoplan =
            \<lparr>AutoplanConfig_Enabled = StackAtlantisConfig_AutoPlan (Stack_AtlantisConfig stack),
             AutoplanConfig_WhenModified = uniqueStrings allDependencies\<rparr>,
          AtlantisProject_ApplyRequirements =
            (if length (StackAtlantisConfig_ApplyRequirements (Stack_AtlantisConfig stack)) > 0
             then Some (StackAtlantisConfig_ApplyRequirements (Stack_AtlantisConfig stack))
             else None),
          AtlantisProject_ExecutionOrderGroup =
            (if Stack_ExecutionOrder stack > 0 then Some (Stack_ExecutionOrder stack) else None),
          AtlantisProject_DependsOn =
            (if length (Stack_Dependencies stack) > 0 then Some (Stack_Dependencies stack)
             else None)\<rparr>)"

definition NewStackManager :: "StackManagerConfig \<Rightarrow> StackManager" where
  "NewStackManager config =
     \<lparr>StackManager_config = config, StackManager_stacks = [],
      StackManager_moduleToStacks = Map.empty, StackManager_stackToModules = Map.empty\<rparr>"

text \<open>The stack and the manager of the test \<open>TestStackManager_GenerateStackProject\<close>.\<close>

definition testStack :: Stack where
  "testStack =
     \<lparr>Stack_Name = ''test-stack'', Stack_Description = ''Test stack'',
      Stack_Modules = [''app-a'', ''app-b''], Stack_Dependencies = [''dependency-stack''],
      Stack_AtlantisConfig =
        \<lparr>StackAtlantisConfig_Workflow = ''test-workflow'', StackAtlantisConfig_AutoPlan = True,
         StackAtlantisConfig_Parallel = True, StackAtlantisConfig_ApplyRequirements = [''approved''],
         StackAtlantisConfig_Workspace = ''test-workspace'',
         StackAtlantisConfig_TerraformVersion = []\<rparr>,
      Stack_ExecutionOrder = 10, Stack_Source = []\<rparr>"

definition testManager :: StackManager where
  "testManager =
     NewStackManager
       \<lparr>StackManagerConfig_GitRoot = ''/repo'', StackManagerConfig_DefinitionFile = [],
        StackManagerConfig_InferFromDir = False, StackManagerConfig_DirectoryDepth = 0,
        StackManagerConfig_AllowMultiStack = False, StackManagerConfig_StackMarkerFile = [],
        StackManagerConfig_ValidateCoverage = False\<rparr>"

section \<open>Properties of ValidateStackDefinition\<close>

lemma hasEmptyPattern_iff: "hasEmptyPattern ps \<longleftrightarrow> [] \<in> set ps"
  by (induction ps) auto

lemma validateStacks_None_iff:
  "validateStacks i seen stacks = None \<longleftrightarrow>
     (\<forall>s \<in> set stacks. stackWellFormed s \<and> \<not> seen (Name s)) \<and> distinct (map Name stacks)"
proof (induction stacks arbitrary: i seen)
  case Nil
  show ?case by simp
next
  case (Cons s stacks)
  show ?case
  proof (cases "stackWellFormed s \<and> \<not> seen (Name s)")
    case False
    then show ?thesis
      by (auto simp: stackWellFormed_def hasEmptyPattern_iff)
  next
    case True
    then have step: "validateStacks i seen (s # stacks) =
        validateStacks (Suc i) (seen (Name s := True)) stacks"
      by (auto simp: stackWellFormed_def hasEmptyPattern_iff)
    show ?thesis
      unfolding step Cons.IH using True by (auto simp: image_iff)
  qed
qed

lemma validateStacks_append:
  "validateStacks i seen pre = None \<Longrightarrow>
     validateStacks i seen (pre @ rest) =
       validateStacks (i + length pre) (\<lambda>n. seen n \<or> n \<in> Name ` set pre) rest"
proof (induction pre arbitrary: i seen)
  case Nil
  show ?case by simp
next
  case (Cons s pre)
  from Cons.prems have ok:
    "Name s \<noteq> []" "\<not> seen (Name s)" "\<not> (Include s = [] \<and> Modules s = [])"
    "\<not> hasEmptyPattern (Include s)"
    and rest: "validateStacks (Suc i) (seen (Name s := True)) pre = None"
    by (auto split: if_splits)
  have same: "(\<lambda>n. (seen (Name s := True)) n \<or> n \<in> Name ` set pre) =
      (\<lambda>n. seen n \<or> n \<in> Name ` set (s # pre))"
    by (auto simp: fun_eq_iff)
  have "validateStacks i seen ((s # pre) @ rest) =
      validateStacks (Suc i) (seen (Name s := True)) (pre @ rest)"
    using ok by auto
  also have "\<dots> = validateStacks (Suc i + length pre)
      (\<lambda>n. (seen (Name s := True)) n \<or> n \<in> Name ` set pre) rest"
    by (rule Cons.IH [OF rest])
  also have "\<dots> = validateStacks (i + length (s # pre))
      (\<lambda>n. seen n \<or> n \<in> Name ` set (s # pre)) rest"
    by (simp only: same) simp
  finally show ?case .
qed

lemma ValidateStackDefinition_None_iff:
  "ValidateStackDefinition d = None \<longleftrightarrow>
     Version d = 1 \<and> Stacks d \<noteq> [] \<and> (\<forall>s \<in> set (Stacks d). stackWellFormed s) \<and>
     distinct (map Name (Stacks d))"
  by (simp add: ValidateStackDefinition_def validateStacks_None_iff)

lemma ValidateStackDefinition_at:
  assumes "Version d = 1" and "Stacks d = pre @ s # post"
    and "\<forall>t \<in> set pre. stackWellFormed t" and "distinct (map Name pre)"
  shows "ValidateStackDefinition d =
     validateStacks (length pre) (\<lambda>n. n \<in> Name ` set pre) (s # post)"
proof -
  have "validateStacks 0 (\<lambda>_. False) pre = None"
    using assms(3,4) by (simp add: validateStacks_None_iff)
  from validateStacks_append [OF this, of "s # post"] show ?thesis
    using assms(1,2) by (simp add: ValidateStackDefinition_def)
qed

text \<open>
  Claim C3, as the code has it. \<open>ValidateStackDefinition\<close> returns an error if and only if the
  version differs from 1, or the stack list is empty, or some stack has an empty name, or two
  stacks share a name, or some stack has neither include patterns nor explicit modules, or
  some stack has an empty string among its include patterns. The error returned is that of the
  first check that fails, in the order of the code. A version other than 1 always fails with
  "unsupported version". With version 1, an empty stack list fails with "no stacks defined".
  With version 1 and a stack \<open>s\<close> before which every stack passes every check (the stacks
  \<open>pre\<close> are well formed and have distinct names), the error is decided by \<open>s\<close>: "stack at
  index ... has no name", with the index of \<open>s\<close>, when its name is empty; otherwise "duplicate
  stack name" when its name is that of an earlier stack; otherwise "must specify either" when
  it has neither include patterns nor modules; otherwise "has empty include pattern" when
  one of its include patterns is the empty string.
\<close>

theorem ValidateStackDefinition_first_failing_check:
  "(ValidateStackDefinition d \<noteq> None \<longleftrightarrow>
      Version d \<noteq> 1 \<or> Stacks d = [] \<or> (\<exists>s \<in> set (Stacks d). Name s = []) \<or>
      \<not> distinct (map Name (Stacks d)) \<or>
      (\<exists>s \<in> set (Stacks d). Include s = [] \<and> Modules s = []) \<or>
      (\<exists>s \<in> set (Stacks d). [] \<in> set (Include s))) \<and>
   (Version d \<noteq> 1 \<longrightarrow> ValidateStackDefinition d = Some (UnsupportedVersion (Version d))) \<and>
   (Version d = 1 \<and> Stacks d = [] \<longrightarrow> ValidateStackDefinition d = Some NoStacksDefined) \<and>
   (Version d = 1 \<and> Stacks d = pre @ s # post \<and> (\<forall>t \<in> set pre. stackWellFormed t) \<and>
      distinct (map Name pre) \<and>
      Name s = [] \<longrightarrow>
      ValidateStackDefinition d = Some (StackHasNoName (length pre))) \<and>
   (Version d = 1 \<and> Stacks d = pre @ s # post \<and> (\<forall>t \<in> set pre. stackWellFormed t) \<and>
      distinct (map Name pre) \<and>
      Name s \<noteq> [] \<and> Name s \<in> Name ` set pre \<longrightarrow>
      ValidateStackDefinition d = Some (DuplicateStackName (Name s))) \<and>
   (Version d = 1 \<and> Stacks d = pre @ s # post \<and> (\<forall>t \<in> set pre. stackWellFormed t) \<and>
      distinct (map Name pre) \<and>
      Name s \<noteq> [] \<and> Name s \<notin> Name ` set pre \<and>
      Include s = [] \<and> Modules s = [] \<longrightarrow>
      ValidateStackDefinition d = Some (MustSpecifyEither (Name s))) \<and>
   (Version d = 1 \<and> Stacks d = pre @ s # post \<and> (\<forall>t \<in> set pre. stackWellFormed t) \<and>
      distinct (map Name pre) \<and>
      Name s \<noteq> [] \<and> Name s \<notin> Name ` set pre \<and>
      (Include s \<noteq> [] \<or> Modules s \<noteq> []) \<and> [] \<in> set (Include s) \<longrightarrow>
      ValidateStackDefinition d = Some (EmptyIncludePattern (Name s)))"
proof (intro conjI impI)
  show "ValidateStackDefinition d \<noteq> None \<longleftrightarrow>
      Version d \<noteq> 1 \<or> Stacks d = [] \<or> (\<exists>s \<in> set (Stacks d). Name s = []) \<or>
      \<not> distinct (map Name (Stacks d)) \<or>
      (\<exists>s \<in> set (Stacks d). Include s = [] \<and> Modules s = []) \<or>
      (\<exists>s \<in> set (Stacks d). [] \<in> set (Include s))"
    unfolding ValidateStackDefinition_None_iff stackWellFormed_def by blast
next
  assume "Version d \<noteq> 1"
  then show "ValidateStackDefinition d = Some (UnsupportedVersion (Version d))"
    by (simp add: ValidateStackDefinition_def)
next
  assume "Version d = 1 \<and> Stacks d = []"
  then show "ValidateStackDefinition d = Some NoStacksDefined"
    by (simp add: ValidateStackDefinition_def)
next
  assume h: "Version d = 1 \<and> Stacks d = pre @ s # post \<and> (\<forall>t \<in> set pre. stackWellFormed t) \<and>
      distinct (map Name pre) \<and>
      Name s = []"
  then have "ValidateStackDefinition d =
      validateStacks (length pre) (\<lambda>n. n \<in> Name ` set pre) (s # post)"
    by (intro ValidateStackDefinition_at) simp_all
  with h show "ValidateStackDefinition d = Some (StackHasNoName (length pre))"
    by (auto simp: hasEmptyPattern_iff)
next
  assume h: "Version d = 1 \<and> Stacks d = pre @ s # post \<and> (\<forall>t \<in> set pre. stackWellFormed t) \<and>
      distinct (map Name pre) \<and>
      Name s \<noteq> [] \<and> Name s \<in> Name ` set pre"
  then have "ValidateStackDefinition d =
      validateStacks (length pre) (\<lambda>n. n \<in> Name ` set pre) (s # post)"
    by (intro ValidateStackDefinition_at) simp_all
  with h show "ValidateStackDefinition d = Some (DuplicateStackName (Name s))"
    by (auto simp: hasEmptyPattern_iff)
next
  assume h: "Version d = 1 \<and> Stacks d = pre @ s # post \<and> (\<forall>t \<in> set pre. stackWellFormed t) \<and>
      distinct (map Name pre) \<and>
      Name s \<noteq> [] \<and> Name s \<notin> Name ` set pre \<and>
      Include s = [] \<and> Modules s = []"
  then have "ValidateStackDefinition d =
      validateStacks (length pre) (\<lambda>n. n \<in> Name ` set pre) (s # post)"
    by (intro ValidateStackDefinition_at) simp_all
  with h show "ValidateStackDefinition d = Some (MustSpecifyEither (Name s))"
    by (auto simp: hasEmptyPattern_iff)
next
  assume h: "Version d = 1 \<and> Stacks d = pre @ s # post \<and> (\<forall>t \<in> set pre. stackWellFormed t) \<and>
      distinct (map Name pre) \<and>
      Name s \<noteq> [] \<and> Name s \<notin> Name ` set pre \<and>
      (Include s \<noteq> [] \<or> Modules s \<noteq> []) \<and> [] \<in> set (Include s)"
  then have "ValidateStackDefinition d =
      validateStacks (length pre) (\<lambda>n. n \<in> Name ` set pre) (s # post)"
    by (intro ValidateStackDefinition_at) simp_all
  with h show "ValidateStackDefinition d = Some (EmptyIncludePattern (Name s))"
    by (auto simp: hasEmptyPattern_iff)
qed

text \<open>
  The theorem at six definitions, one for each check: version 2 (the test "unsupported
  version"), no stacks, a second stack without a name, two stacks named \<open>test\<close> (the test
  "duplicate stack names"), one stack with a name and nothing else (the test "no modules or
  include"), and a stack with an empty include pattern.
\<close>

theorem ValidateStackDefinition_first_failing_check_witness:
  "ValidateStackDefinition
     \<lparr>Version = 2,
      Stacks = [ExternalStackConfig_zero\<lparr>Name := ''test'', Modules := [''app-a'']\<rparr>]\<rparr>
     = Some (UnsupportedVersion 2) \<and>
   ValidateStackDefinition \<lparr>Version = 1, Stacks = []\<rparr> = Some NoStacksDefined \<and>
   ValidateStackDefinition
     \<lparr>Version = 1,
      Stacks = [ExternalStackConfig_zero\<lparr>Name := ''test'', Modules := [''app-a'']\<rparr>,
                ExternalStackConfig_zero\<lparr>Modules := [''app-b'']\<rparr>]\<rparr>
     = Some (StackHasNoName 1) \<and>
   ValidateStackDefinition
     \<lparr>Version = 1,
      Stacks = [ExternalStackConfig_zero\<lparr>Name := ''test'', Modules := [''app-a'']\<rparr>,
                ExternalStackConfig_zero\<lparr>Name := ''test'', Modules := [''app-b'']\<rparr>]\<rparr>
     = Some (DuplicateStackName ''test'') \<and>
   ValidateStackDefinition
     \<lparr>Version = 1, Stacks = [ExternalStackConfig_zero\<lparr>Name := ''test''\<rparr>]\<rparr>
     = Some (MustSpecifyEither ''test'') \<and>
   ValidateStackDefinition
     \<lparr>Version = 1,
      Stacks = [ExternalStackConfig_zero\<lparr>Name := ''test'', Include := [''shared/**'', []]\<rparr>]\<rparr>
     = Some (EmptyIncludePattern ''test'')"
proof (intro conjI)
  let ?a = "ExternalStackConfig_zero\<lparr>Name := ''test'', Modules := [''app-a'']\<rparr>"
  let ?b = "ExternalStackConfig_zero\<lparr>Name := ''test'', Modules := [''app-b'']\<rparr>"
  let ?u = "ExternalStackConfig_zero\<lparr>Modules := [''app-b'']\<rparr>"
  let ?n = "ExternalStackConfig_zero\<lparr>Name := ''test''\<rparr>"
  let ?e = "ExternalStackConfig_zero\<lparr>Name := ''test'', Include := [''shared/**'', []]\<rparr>"
  show "ValidateStackDefinition \<lparr>Version = 2, Stacks = [?a]\<rparr> = Some (UnsupportedVersion 2)"
    using ValidateStackDefinition_first_failing_check [of "\<lparr>Version = 2, Stacks = [?a]\<rparr>"]
    by simp
  show "ValidateStackDefinition \<lparr>Version = 1, Stacks = []\<rparr> = Some NoStacksDefined"
    using ValidateStackDefinition_first_failing_check [of "\<lparr>Version = 1, Stacks = []\<rparr>"]
    by simp
  show "ValidateStackDefinition \<lparr>Version = 1, Stacks = [?a, ?u]\<rparr> = Some (StackHasNoName 1)"
    using ValidateStackDefinition_first_failing_check
      [of "\<lparr>Version = 1, Stacks = [?a, ?u]\<rparr>" "[?a]" ?u "[]"]
    by (simp add: ExternalStackConfig_zero_def stackWellFormed_def)
  show "ValidateStackDefinition \<lparr>Version = 1, Stacks = [?a, ?b]\<rparr> =
      Some (DuplicateStackName ''test'')"
    using ValidateStackDefinition_first_failing_check
      [of "\<lparr>Version = 1, Stacks = [?a, ?b]\<rparr>" "[?a]" ?b "[]"]
    by (simp add: ExternalStackConfig_zero_def stackWellFormed_def)
  show "ValidateStackDefinition \<lparr>Version = 1, Stacks = [?n]\<rparr> = Some (MustSpecifyEither ''test'')"
    using ValidateStackDefinition_first_failing_check
      [of "\<lparr>Version = 1, Stacks = [?n]\<rparr>" "[]" ?n "[]"]
    by (simp add: ExternalStackConfig_zero_def)
  show "ValidateStackDefinition \<lparr>Version = 1, Stacks = [?e]\<rparr> = Some (EmptyIncludePattern ''test'')"
    using ValidateStackDefinition_first_failing_check
      [of "\<lparr>Version = 1, Stacks = [?e]\<rparr>" "[]" ?e "[]"]
    by (simp add: ExternalStackConfig_zero_def)
qed

text \<open>
  Where the claim as written fails: the second stack below has empty include and empty
  modules, and the definition fails, but with "duplicate stack name", the earlier check of
  the loop, not with "must specify either".
\<close>

theorem ValidateStackDefinition_must_specify_counterexample:
  "Include (ExternalStackConfig_zero\<lparr>Name := ''test''\<rparr>) = [] \<and>
   Modules (ExternalStackConfig_zero\<lparr>Name := ''test''\<rparr>) = [] \<and>
   ValidateStackDefinition
     \<lparr>Version = 1,
      Stacks = [ExternalStackConfig_zero\<lparr>Name := ''test'', Modules := [''app-a'']\<rparr>,
                ExternalStackConfig_zero\<lparr>Name := ''test''\<rparr>]\<rparr>
     = Some (DuplicateStackName ''test'') \<and>
   ValidateStackDefinition
     \<lparr>Version = 1,
      Stacks = [ExternalStackConfig_zero\<lparr>Name := ''test'', Modules := [''app-a'']\<rparr>,
                ExternalStackConfig_zero\<lparr>Name := ''test''\<rparr>]\<rparr>
     \<noteq> Some (MustSpecifyEither ''test'')"
  by (simp add: ValidateStackDefinition_def ExternalStackConfig_zero_def)

section \<open>Properties of matchGlobPattern and MatchModuleToStacks\<close>

lemma Split_one_occurrence:
  assumes "Index pattern sep = Some i" and "\<not> Contains (drop (i + length sep) pattern) sep"
    and "sep \<noteq> []"
  shows "Split pattern sep = [take i pattern, drop (i + length sep) pattern]"
proof -
  from assms(2) have none: "Index (drop (i + length sep) pattern) sep = None"
    by (simp add: Contains_def)
  have "Split (drop (i + length sep) pattern) sep = [drop (i + length sep) pattern]"
    using none assms(3) by (subst Split.simps) simp
  then show ?thesis
    using assms(1,3) by (subst Split.simps) simp
qed

lemma fst_matchesAny:
  "fst (matchesAny relPath patterns) \<longleftrightarrow> (\<exists>p \<in> set patterns. fst (matchGlobPattern relPath p))"
  by (induction patterns) (auto split: prod.splits)

lemma matchesExplicit_iff:
  "matchesExplicit relPath modules \<longleftrightarrow> (\<exists>m \<in> set modules. HasSuffix relPath (ToSlash m))"
  by (induction modules) (auto simp: HasSuffix_def)

lemma matchStacks_append:
  "matchStacks relPath (xs @ ys) =
     (fst (matchStacks relPath xs) @ fst (matchStacks relPath ys),
      snd (matchStacks relPath xs) @ snd (matchStacks relPath ys))"
  by (induction xs) (auto split: prod.splits)

lemma stackMatches_explicit:
  "Modules stack \<noteq> [] \<Longrightarrow>
     stackMatches relPath (stack\<lparr>Include := inc, Exclude := exc\<rparr>) = stackMatches relPath stack"
  by (simp add: stackMatches_def)

lemma stackMatches_not_included:
  "Modules stack = [] \<Longrightarrow> \<not> fst (matchesAny relPath (Include stack)) \<Longrightarrow>
     stackMatches relPath (stack\<lparr>Exclude := exc\<rparr>) = stackMatches relPath stack"
  by (cases "matchesAny relPath (Include stack)") (auto simp: stackMatches_def)

lemma matchStacks_cong_at:
  "stackMatches relPath s' = stackMatches relPath s \<Longrightarrow> Name s' = Name s \<Longrightarrow>
     matchStacks relPath (before @ s' # after) = matchStacks relPath (before @ s # after)"
  by (cases "stackMatches relPath s"; cases "matchStacks relPath after")
    (simp add: matchStacks_append)

lemma matchGlobPattern_one_occurrence:
  assumes "Index pattern ''**'' = Some i" and "\<not> Contains (drop (i + 2) pattern) ''**''"
  shows "fst (matchGlobPattern path pattern) \<longleftrightarrow>
     (TrimSuffix (take i pattern) ''/'' = [] \<or> HasPrefix path (TrimSuffix (take i pattern) ''/'')) \<and>
     (TrimPrefix (drop (i + 2) pattern) ''/'' = [] \<or>
        HasSuffix path (TrimPrefix (drop (i + 2) pattern) ''/''))"
proof -
  have "Split pattern ''**'' = [take i pattern, drop (i + 2) pattern]"
    using Split_one_occurrence [of pattern "''**''" i] assms by simp
  moreover have "Contains pattern ''**''"
    using assms(1) by (simp add: Contains_def)
  ultimately show ?thesis
    by (auto simp: matchGlobPattern_def Let_def)
qed

lemma Split_not_Nil: "sep \<noteq> [] \<Longrightarrow> Split s sep \<noteq> []"
  by (subst Split.simps) (auto split: option.splits)

lemma Split_more_occurrences:
  assumes "Index pattern sep = Some i" and "Contains (drop (i + length sep) pattern) sep"
    and "sep \<noteq> []"
  shows "length (Split pattern sep) \<ge> 3"
proof -
  let ?rest = "drop (i + length sep) pattern"
  from assms(2) obtain j where j: "Index ?rest sep = Some j"
    by (auto simp: Contains_def)
  have "Split ?rest sep = take j ?rest # Split (drop (j + length sep) ?rest) sep"
    using j assms(3) by (subst Split.simps) simp
  moreover have "Split pattern sep = take i pattern # Split ?rest sep"
    using assms(1,3) by (subst Split.simps) simp
  ultimately show ?thesis
    using Split_not_Nil [OF assms(3), of "drop (j + length sep) ?rest"]
    by (cases "Split (drop (j + length sep) ?rest) sep") simp_all
qed

lemma matchGlobPattern_more_occurrences:
  assumes "Index pattern ''**'' = Some i" and "Contains (drop (i + 2) pattern) ''**''"
  shows "matchGlobPattern path pattern =
     (case Match pattern path of
        Inl err \<Rightarrow> (False, [InvalidGlobPattern pattern err])
      | Inr matched \<Rightarrow> (matched, []))"
proof -
  have "length (Split pattern ''**'') \<ge> 3"
    using Split_more_occurrences [of pattern "''**''" i] assms by simp
  then show ?thesis
    by (simp add: matchGlobPattern_def Let_def)
qed

lemma fst_matchStacks:
  "fst (matchStacks relPath stacks) = map Name (filter (\<lambda>s. fst (stackMatches relPath s)) stacks)"
  by (induction stacks) (auto split: prod.splits)

lemma fst_MatchModuleToStacks:
  "fst (MatchModuleToStacks modulePath stacks gitRoot) =
     map Name (filter (\<lambda>s. fst (stackMatches (fst (relativePath gitRoot modulePath)) s)) stacks)"
  by (simp add: MatchModuleToStacks_def fst_matchStacks [symmetric] split: prod.splits)

lemma fst_stackMatches_patterns:
  "Modules stack = [] \<Longrightarrow>
     fst (stackMatches relPath stack) \<longleftrightarrow>
       (\<exists>p \<in> set (Include stack). fst (matchGlobPattern relPath p)) \<and>
       \<not> (\<exists>p \<in> set (Exclude stack). fst (matchGlobPattern relPath p))"
  unfolding fst_matchesAny [symmetric]
  by (cases "matchesAny relPath (Include stack)"; cases "matchesAny relPath (Exclude stack)")
    (auto simp: stackMatches_def)

text \<open>
  Claim C2, as the code has it. When the pattern holds the token \<open>**\<close> exactly once (its
  first occurrence is at \<open>i\<close> and nothing after it holds the token again), \<open>matchGlobPattern\<close>
  cuts the pattern there into a prefix and a suffix and answers true if and only if the path
  starts with the prefix without its trailing slash, when that is not empty, and ends with the
  suffix without its leading slash, when that is not empty. When the token occurs again after
  its first occurrence, the pattern is not cut: it goes to \<open>filepath.Match\<close> whole, like a
  pattern without the token. The two examples of the specification hold.
\<close>

theorem matchGlobPattern_recursive_wildcard:
  "(Index pattern ''**'' = Some i \<and> \<not> Contains (drop (i + 2) pattern) ''**'' \<longrightarrow>
      (fst (matchGlobPattern path pattern) \<longleftrightarrow>
         (TrimSuffix (take i pattern) ''/'' = [] \<or>
            HasPrefix path (TrimSuffix (take i pattern) ''/'')) \<and>
         (TrimPrefix (drop (i + 2) pattern) ''/'' = [] \<or>
            HasSuffix path (TrimPrefix (drop (i + 2) pattern) ''/'')))) \<and>
   (Index pattern ''**'' = Some i \<and> Contains (drop (i + 2) pattern) ''**'' \<longrightarrow>
      (fst (matchGlobPattern path pattern) \<longleftrightarrow> Match pattern path = Inr True)) \<and>
   fst (matchGlobPattern ''environments/production/networking/vpc''
          ''environments/production/**'') \<and>
   \<not> fst (matchGlobPattern ''staging/app/main.tf'' ''production/**'')"
proof (intro conjI impI)
  assume "Index pattern ''**'' = Some i \<and> \<not> Contains (drop (i + 2) pattern) ''**''"
  then show "fst (matchGlobPattern path pattern) \<longleftrightarrow>
      (TrimSuffix (take i pattern) ''/'' = [] \<or>
         HasPrefix path (TrimSuffix (take i pattern) ''/'')) \<and>
      (TrimPrefix (drop (i + 2) pattern) ''/'' = [] \<or>
         HasSuffix path (TrimPrefix (drop (i + 2) pattern) ''/''))"
    using matchGlobPattern_one_occurrence by blast
next
  assume "Index pattern ''**'' = Some i \<and> Contains (drop (i + 2) pattern) ''**''"
  then have "matchGlobPattern path pattern =
     (case Match pattern path of
        Inl err \<Rightarrow> (False, [InvalidGlobPattern pattern err])
      | Inr matched \<Rightarrow> (matched, []))"
    using matchGlobPattern_more_occurrences by blast
  then show "fst (matchGlobPattern path pattern) \<longleftrightarrow> Match pattern path = Inr True"
    by (auto split: sum.splits)
next
  have i: "Index ''environments/production/**'' ''**'' = Some 24"
    by code_simp
  have c: "\<not> Contains (drop (24 + 2) ''environments/production/**'') ''**''"
    by code_simp
  show "fst (matchGlobPattern ''environments/production/networking/vpc''
      ''environments/production/**'')"
    unfolding matchGlobPattern_one_occurrence [OF i c] by code_simp
next
  have i: "Index ''production/**'' ''**'' = Some 11"
    by code_simp
  have c: "\<not> Contains (drop (11 + 2) ''production/**'') ''**''"
    by code_simp
  show "\<not> fst (matchGlobPattern ''staging/app/main.tf'' ''production/**'')"
    unfolding matchGlobPattern_one_occurrence [OF i c] by code_simp
qed

text \<open>
  The theorem at the test's pattern with the token in the middle, and at a pattern with the
  token twice.
\<close>

theorem matchGlobPattern_recursive_wildcard_witness:
  "Index ''environments/**/vpc'' ''**'' = Some 13 \<and>
   \<not> Contains (drop (13 + 2) ''environments/**/vpc'') ''**'' \<and>
   fst (matchGlobPattern ''environments/production/region/us-east-1/vpc'' ''environments/**/vpc'') \<and>
   Index ''a/**/b/**'' ''**'' = Some 2 \<and>
   Contains (drop (2 + 2) ''a/**/b/**'') ''**'' \<and>
   fst (matchGlobPattern ''a/x/b/y'' ''a/**/b/**'')"
proof -
  have i1: "Index ''environments/**/vpc'' ''**'' = Some 13" by code_simp
  have c1: "\<not> Contains (drop (13 + 2) ''environments/**/vpc'') ''**''" by code_simp
  have r1: "(TrimSuffix (take 13 ''environments/**/vpc'') ''/'' = [] \<or>
      HasPrefix ''environments/production/region/us-east-1/vpc''
        (TrimSuffix (take 13 ''environments/**/vpc'') ''/'')) \<and>
     (TrimPrefix (drop (13 + 2) ''environments/**/vpc'') ''/'' = [] \<or>
      HasSuffix ''environments/production/region/us-east-1/vpc''
        (TrimPrefix (drop (13 + 2) ''environments/**/vpc'') ''/''))"
    by code_simp
  have i2: "Index ''a/**/b/**'' ''**'' = Some 2" by code_simp
  have c2: "Contains (drop (2 + 2) ''a/**/b/**'') ''**''" by code_simp
  have m2: "Match ''a/**/b/**'' ''a/x/b/y'' = Inr True" by code_simp
  from matchGlobPattern_recursive_wildcard
    [of "''environments/**/vpc''" 13 "''environments/production/region/us-east-1/vpc''"]
    i1 c1 r1
  have "fst (matchGlobPattern ''environments/production/region/us-east-1/vpc''
      ''environments/**/vpc'')"
    by blast
  moreover
  from matchGlobPattern_recursive_wildcard [of "''a/**/b/**''" 2 "''a/x/b/y''"] i2 c2 m2
  have "fst (matchGlobPattern ''a/x/b/y'' ''a/**/b/**'')"
    by blast
  ultimately show ?thesis
    using i1 c1 i2 c2 by blast
qed

text \<open>
  Where the claim as written fails: the pattern \<open>a/**/b/**\<close> holds the token, first at
  position 2; cut there, the suffix is \<open>b/**\<close>, and the path \<open>a/x/b/y\<close> does not end with it.
  But \<open>strings.Split\<close> gives three parts, so the code asks \<open>filepath.Match\<close>, where each \<open>**\<close>
  matches within one path element, and the answer is true.
\<close>

theorem matchGlobPattern_second_wildcard_counterexample:
  "Contains ''a/**/b/**'' ''**'' \<and>
   Index ''a/**/b/**'' ''**'' = Some 2 \<and>
   fst (matchGlobPattern ''a/x/b/y'' ''a/**/b/**'') \<and>
   \<not> HasSuffix ''a/x/b/y'' (TrimPrefix (drop (2 + 2) ''a/**/b/**'') ''/'')"
  by code_simp

lemma fst_stackMatches_explicit:
  "Modules stack \<noteq> [] \<Longrightarrow>
     stackMatches relPath stack =
       ((\<exists>m \<in> set (Modules stack). HasSuffix relPath (ToSlash m)), [])"
  by (simp add: stackMatches_def matchesExplicit_iff)

lemma MatchModuleToStacks_cong_at:
  assumes "\<And>relPath. stackMatches relPath s' = stackMatches relPath s" and "Name s' = Name s"
  shows "MatchModuleToStacks modulePath (before @ s' # after) gitRoot =
       MatchModuleToStacks modulePath (before @ s # after) gitRoot"
proof -
  have "matchStacks r (before @ s' # after) = matchStacks r (before @ s # after)" for r
    using assms by (rule matchStacks_cong_at)
  then show ?thesis
    by (simp only: MatchModuleToStacks_def)
qed

text \<open>
  Claim C6. For a stack whose explicit modules list is not empty, \<open>MatchModuleToStacks\<close>
  decides membership from that list alone: whatever include and exclude patterns the stack
  carries, the result and the log of the whole call are the same as without them, and the
  stack's iteration answers by the suffix test on the listed modules and writes no warning
  (a pattern that was evaluated and malformed would have written one).
\<close>

theorem MatchModuleToStacks_explicit_modules_only:
  "Modules stack \<noteq> [] \<Longrightarrow>
     MatchModuleToStacks modulePath (before @ stack\<lparr>Include := inc, Exclude := exc\<rparr> # after) gitRoot =
       MatchModuleToStacks modulePath (before @ stack # after) gitRoot \<and>
     stackMatches relPath (stack\<lparr>Include := inc, Exclude := exc\<rparr>) =
       ((\<exists>m \<in> set (Modules stack). HasSuffix relPath (ToSlash m)), [])"
proof
  assume m: "Modules stack \<noteq> []"
  show "MatchModuleToStacks modulePath (before @ stack\<lparr>Include := inc, Exclude := exc\<rparr> # after) gitRoot =
       MatchModuleToStacks modulePath (before @ stack # after) gitRoot"
    by (rule MatchModuleToStacks_cong_at) (simp_all add: stackMatches_explicit [OF m])
  show "stackMatches relPath (stack\<lparr>Include := inc, Exclude := exc\<rparr>) =
       ((\<exists>m \<in> set (Modules stack). HasSuffix relPath (ToSlash m)), [])"
    using m by (simp add: stackMatches_explicit fst_stackMatches_explicit)
qed

text \<open>
  The theorem at a stack whose patterns contradict its list: \<open>shared/vpc\<close> is listed and also
  excluded by pattern, and is assigned; \<open>environments/dev\<close> is included by pattern and not
  listed, and is not assigned.
\<close>

theorem MatchModuleToStacks_explicit_modules_only_witness:
  "MatchModuleToStacks ''/repo/shared/vpc''
     [ExternalStackConfig_zero\<lparr>Name := ''shared'', Modules := [''shared/vpc'']\<rparr>
        \<lparr>Include := [''environments/**''], Exclude := [''shared/**'']\<rparr>] ''/repo''
     = ([''shared''], []) \<and>
   MatchModuleToStacks ''/repo/environments/dev''
     [ExternalStackConfig_zero\<lparr>Name := ''shared'', Modules := [''shared/vpc'']\<rparr>
        \<lparr>Include := [''environments/**''], Exclude := [''shared/**'']\<rparr>] ''/repo''
     = ([], [])"
proof -
  let ?s = "ExternalStackConfig_zero\<lparr>Name := ''shared'', Modules := [''shared/vpc'']\<rparr>"
  have m: "Modules ?s \<noteq> []" by simp
  have "relativePath ''/repo'' ''/repo/shared/vpc'' = (''shared/vpc'', [])"
    and "matchStacks ''shared/vpc'' [?s] = ([''shared''], [])"
    by code_simp+
  then have a: "MatchModuleToStacks ''/repo/shared/vpc'' [?s] ''/repo'' = ([''shared''], [])"
    by (simp only: MatchModuleToStacks_def prod.case append_Nil)
  have "relativePath ''/repo'' ''/repo/environments/dev'' = (''environments/dev'', [])"
    and "matchStacks ''environments/dev'' [?s] = ([], [])"
    by code_simp+
  then have b: "MatchModuleToStacks ''/repo/environments/dev'' [?s] ''/repo'' = ([], [])"
    by (simp only: MatchModuleToStacks_def prod.case append_Nil)
  have "MatchModuleToStacks ''/repo/shared/vpc''
      [?s\<lparr>Include := [''environments/**''], Exclude := [''shared/**'']\<rparr>] ''/repo'' =
      MatchModuleToStacks ''/repo/shared/vpc'' [?s] ''/repo''"
    using MatchModuleToStacks_explicit_modules_only
      [OF m, where modulePath = "''/repo/shared/vpc''" and before = "[]" and after = "[]"
        and inc = "[''environments/**'']" and exc = "[''shared/**'']" and gitRoot = "''/repo''",
        THEN conjunct1]
    by (simp only: append_Nil)
  moreover have "MatchModuleToStacks ''/repo/environments/dev''
      [?s\<lparr>Include := [''environments/**''], Exclude := [''shared/**'']\<rparr>] ''/repo'' =
      MatchModuleToStacks ''/repo/environments/dev'' [?s] ''/repo''"
    using MatchModuleToStacks_explicit_modules_only
      [OF m, where modulePath = "''/repo/environments/dev''" and before = "[]" and after = "[]"
        and inc = "[''environments/**'']" and exc = "[''shared/**'']" and gitRoot = "''/repo''",
        THEN conjunct1]
    by (simp only: append_Nil)
  ultimately show ?thesis
    by (simp only: a b)
qed

text \<open>
  Claim C7. For a stack configured by patterns (its modules list is empty) and the module's
  normalized relative path: when no include pattern matches, the exclude patterns play no
  part (with any other exclude list the whole call returns the same names and the same log)
  and the module is not assigned; when some exclude pattern matches, the module is not
  assigned to the stack, which adds nothing to the names returned; and the module is assigned
  exactly when an include pattern matches and no exclude pattern does.
\<close>

theorem MatchModuleToStacks_exclude_after_include:
  "Modules stack = [] \<Longrightarrow> relativePath gitRoot modulePath = (relPath, w) \<Longrightarrow>
     ((\<forall>p \<in> set (Include stack). \<not> fst (matchGlobPattern relPath p)) \<longrightarrow>
        MatchModuleToStacks modulePath (before @ stack\<lparr>Exclude := exc\<rparr> # after) gitRoot =
          MatchModuleToStacks modulePath (before @ stack # after) gitRoot \<and>
        \<not> fst (stackMatches relPath (stack\<lparr>Exclude := exc\<rparr>))) \<and>
     ((\<exists>p \<in> set (Exclude stack). fst (matchGlobPattern relPath p)) \<longrightarrow>
        \<not> fst (stackMatches relPath stack) \<and>
        fst (MatchModuleToStacks modulePath (before @ stack # after) gitRoot) =
          fst (MatchModuleToStacks modulePath (before @ after) gitRoot)) \<and>
     (fst (stackMatches relPath stack) \<longleftrightarrow>
        (\<exists>p \<in> set (Include stack). fst (matchGlobPattern relPath p)) \<and>
        \<not> (\<exists>p \<in> set (Exclude stack). fst (matchGlobPattern relPath p)))"
proof (intro conjI impI)
  assume m: "Modules stack = []" and r: "relativePath gitRoot modulePath = (relPath, w)"
  {
    assume none: "\<forall>p \<in> set (Include stack). \<not> fst (matchGlobPattern relPath p)"
    then have ni: "\<not> fst (matchesAny relPath (Include stack))"
      by (simp add: fst_matchesAny)
    have same: "stackMatches relPath (stack\<lparr>Exclude := exc\<rparr>) = stackMatches relPath stack"
      using m ni by (rule stackMatches_not_included)
    show "MatchModuleToStacks modulePath (before @ stack\<lparr>Exclude := exc\<rparr> # after) gitRoot =
          MatchModuleToStacks modulePath (before @ stack # after) gitRoot"
      using r matchStacks_cong_at [OF same, of before after]
      by (simp add: MatchModuleToStacks_def)
    show "\<not> fst (stackMatches relPath (stack\<lparr>Exclude := exc\<rparr>))"
      unfolding same using m none by (simp add: fst_stackMatches_patterns)
  }
  {
    assume some: "\<exists>p \<in> set (Exclude stack). fst (matchGlobPattern relPath p)"
    then show no: "\<not> fst (stackMatches relPath stack)"
      using m by (simp add: fst_stackMatches_patterns)
    show "fst (MatchModuleToStacks modulePath (before @ stack # after) gitRoot) =
          fst (MatchModuleToStacks modulePath (before @ after) gitRoot)"
      using r no by (simp add: fst_MatchModuleToStacks)
  }
  show "fst (stackMatches relPath stack) \<longleftrightarrow>
        (\<exists>p \<in> set (Include stack). fst (matchGlobPattern relPath p)) \<and>
        \<not> (\<exists>p \<in> set (Exclude stack). fst (matchGlobPattern relPath p))"
    using m by (rule fst_stackMatches_patterns)
qed

text \<open>
  The theorem at the production stack of the tests: a staging module matches no include
  pattern, and a malformed exclude pattern \<open>[\<close> leaves no warning in the log; an experimental
  production module is included and excluded, and is not assigned.
\<close>

theorem MatchModuleToStacks_exclude_after_include_witness:
  "MatchModuleToStacks ''/repo/environments/staging/app''
     [ExternalStackConfig_zero
        \<lparr>Name := ''production'', Include := [''environments/production/**'']\<rparr>
        \<lparr>Exclude := [''['']\<rparr>] ''/repo'' = ([], []) \<and>
   fst (MatchModuleToStacks ''/repo/environments/production/experimental/db''
     [ExternalStackConfig_zero
        \<lparr>Name := ''production'', Include := [''environments/production/**''],
         Exclude := [''environments/production/experimental/**'']\<rparr>] ''/repo'') = []"
proof
  let ?s = "ExternalStackConfig_zero
      \<lparr>Name := ''production'', Include := [''environments/production/**'']\<rparr>"
  have m: "Modules ?s = []"
    by (simp add: ExternalStackConfig_zero_def)
  have r: "relativePath ''/repo'' ''/repo/environments/staging/app'' =
      (''environments/staging/app'', [])"
    by code_simp
  have "\<not> fst (matchGlobPattern ''environments/staging/app'' ''environments/production/**'')"
    by code_simp
  then have none: "\<forall>p \<in> set (Include ?s). \<not> fst (matchGlobPattern ''environments/staging/app'' p)"
    by simp
  have "matchStacks ''environments/staging/app'' [?s] = ([], [])"
    by code_simp
  with r have v: "MatchModuleToStacks ''/repo/environments/staging/app'' [?s] ''/repo'' = ([], [])"
    by (simp only: MatchModuleToStacks_def prod.case append_Nil)
  from MatchModuleToStacks_exclude_after_include
    [OF m r, where before = "[]" and after = "[]" and exc = "[''['']", THEN conjunct1] none
  have "MatchModuleToStacks ''/repo/environments/staging/app'' [?s\<lparr>Exclude := [''['']\<rparr>] ''/repo'' =
      MatchModuleToStacks ''/repo/environments/staging/app'' [?s] ''/repo''"
    by (simp only: append_Nil)
  then show "MatchModuleToStacks ''/repo/environments/staging/app''
      [?s\<lparr>Exclude := [''['']\<rparr>] ''/repo'' = ([], [])"
    by (simp only: v)
next
  let ?s = "ExternalStackConfig_zero
      \<lparr>Name := ''production'', Include := [''environments/production/**''],
       Exclude := [''environments/production/experimental/**'']\<rparr>"
  let ?p = "''environments/production/experimental/db''"
  have m: "Modules ?s = []"
    by (simp add: ExternalStackConfig_zero_def)
  have r: "relativePath ''/repo'' ''/repo/environments/production/experimental/db'' = (?p, [])"
    by code_simp
  have "fst (matchGlobPattern ?p ''environments/production/experimental/**'')"
    by code_simp
  then have some: "\<exists>p \<in> set (Exclude ?s). fst (matchGlobPattern ?p p)"
    by simp
  have e: "fst (MatchModuleToStacks ''/repo/environments/production/experimental/db'' [] ''/repo'') = []"
    by (simp add: MatchModuleToStacks_def split: prod.splits)
  from MatchModuleToStacks_exclude_after_include
    [OF m r, where before = "[]" and after = "[]", THEN conjunct2, THEN conjunct1] some
  have "fst (MatchModuleToStacks ''/repo/environments/production/experimental/db'' [?s] ''/repo'') =
      fst (MatchModuleToStacks ''/repo/environments/production/experimental/db'' [] ''/repo'')"
    by (simp only: append_Nil)
  then show "fst (MatchModuleToStacks ''/repo/environments/production/experimental/db''
      [?s] ''/repo'') = []"
    by (simp only: e)
qed

text \<open>
  Claim C10. For a stack with an explicit modules list, membership is the plain string-suffix
  test and nothing else: the stack's iteration answers true exactly when the module's
  normalized relative path ends with one of the listed strings (the path need not be equal to
  it), and in any list of stacks the stack adds its name to the result, at its position,
  exactly in that case.
\<close>

theorem MatchModuleToStacks_explicit_suffix:
  "Modules stack \<noteq> [] \<Longrightarrow> relativePath gitRoot modulePath = (relPath, w) \<Longrightarrow>
     stackMatches relPath stack =
       ((\<exists>m \<in> set (Modules stack). HasSuffix relPath (ToSlash m)), []) \<and>
     fst (MatchModuleToStacks modulePath (before @ stack # after) gitRoot) =
       fst (MatchModuleToStacks modulePath before gitRoot) @
       (if \<exists>m \<in> set (Modules stack). HasSuffix relPath (ToSlash m) then [Name stack] else []) @
       fst (MatchModuleToStacks modulePath after gitRoot)"
proof
  assume m: "Modules stack \<noteq> []" and r: "relativePath gitRoot modulePath = (relPath, w)"
  show e: "stackMatches relPath stack =
      ((\<exists>m \<in> set (Modules stack). HasSuffix relPath (ToSlash m)), [])"
    using m by (rule fst_stackMatches_explicit)
  show "fst (MatchModuleToStacks modulePath (before @ stack # after) gitRoot) =
       fst (MatchModuleToStacks modulePath before gitRoot) @
       (if \<exists>m \<in> set (Modules stack). HasSuffix relPath (ToSlash m) then [Name stack] else []) @
       fst (MatchModuleToStacks modulePath after gitRoot)"
    by (simp add: fst_MatchModuleToStacks r e)
qed

text \<open>
  The theorem at the stack listing \<open>shared/vpc\<close> and \<open>shared/dns\<close>: the module
  \<open>other/shared/vpc\<close>, at another location, is assigned, and the module \<open>shared/vpc2\<close>, which
  ends with neither string, is not.
\<close>

theorem MatchModuleToStacks_explicit_suffix_witness:
  "''other/shared/vpc'' \<noteq> ''shared/vpc'' \<and>
   fst (MatchModuleToStacks ''/repo/other/shared/vpc''
     [ExternalStackConfig_zero\<lparr>Name := ''shared'', Modules := [''shared/vpc'', ''shared/dns'']\<rparr>]
     ''/repo'') = [''shared''] \<and>
   fst (MatchModuleToStacks ''/repo/shared/vpc2''
     [ExternalStackConfig_zero\<lparr>Name := ''shared'', Modules := [''shared/vpc'', ''shared/dns'']\<rparr>]
     ''/repo'') = []"
proof (intro conjI)
  show "''other/shared/vpc'' \<noteq> ''shared/vpc''" by simp
next
  let ?s = "ExternalStackConfig_zero\<lparr>Name := ''shared'', Modules := [''shared/vpc'', ''shared/dns'']\<rparr>"
  have m: "Modules ?s \<noteq> []" by simp
  have r: "relativePath ''/repo'' ''/repo/other/shared/vpc'' = (''other/shared/vpc'', [])"
    by code_simp
  have "HasSuffix ''other/shared/vpc'' (ToSlash ''shared/vpc'')"
    by code_simp
  then have h: "\<exists>m \<in> set (Modules ?s). HasSuffix ''other/shared/vpc'' (ToSlash m)"
    by simp
  have n: "Name ?s = ''shared''" by simp
  have e: "fst (MatchModuleToStacks ''/repo/other/shared/vpc'' [] ''/repo'') = []"
    by (simp add: fst_MatchModuleToStacks)
  from MatchModuleToStacks_explicit_suffix
    [OF m r, where before = "[]" and after = "[]", THEN conjunct2]
  show "fst (MatchModuleToStacks ''/repo/other/shared/vpc'' [?s] ''/repo'') = [''shared'']"
    by (simp only: append_Nil append_Nil2 e h n if_True)
next
  let ?s = "ExternalStackConfig_zero\<lparr>Name := ''shared'', Modules := [''shared/vpc'', ''shared/dns'']\<rparr>"
  have m: "Modules ?s \<noteq> []" by simp
  have r: "relativePath ''/repo'' ''/repo/shared/vpc2'' = (''shared/vpc2'', [])"
    by code_simp
  have "\<not> HasSuffix ''shared/vpc2'' (ToSlash ''shared/vpc'')"
    and "\<not> HasSuffix ''shared/vpc2'' (ToSlash ''shared/dns'')"
    by code_simp+
  then have h: "\<not> (\<exists>m \<in> set (Modules ?s). HasSuffix ''shared/vpc2'' (ToSlash m))"
    by simp
  have e: "fst (MatchModuleToStacks ''/repo/shared/vpc2'' [] ''/repo'') = []"
    by (simp add: fst_MatchModuleToStacks)
  from MatchModuleToStacks_explicit_suffix
    [OF m r, where before = "[]" and after = "[]", THEN conjunct2]
  show "fst (MatchModuleToStacks ''/repo/shared/vpc2'' [?s] ''/repo'') = []"
    by (simp only: append_Nil append_Nil2 e h if_False)
qed

section \<open>Properties of the local module source resolvers\<close>

lemma providerRefError_iff:
  "providerRefError diags \<longleftrightarrow>
     (\<exists>d \<in> set diags. Contains (Summary d) ''Invalid provider reference'' \<or>
        Contains (Summary d) ''Invalid provider configuration address'')"
  by (induction diags) auto

lemma HasErrors_iff: "HasErrors diags \<longleftrightarrow> (\<exists>d \<in> set diags. Severity d = DiagError)"
  by (induction diags) auto

lemma resolveCallsOpenTofu_no_local:
  "\<forall>mc \<in> set calls. \<not> isLocalTerraformModuleSource (Source mc) \<Longrightarrow>
     resolveCallsOpenTofu depth load path calls sourceMap = Some (Inr sourceMap)"
  by (induction calls) auto

lemma resolveCalls_no_local:
  "\<forall>mc \<in> set calls. \<not> isLocalTerraformModuleSource (Source mc) \<Longrightarrow>
     resolveCalls depth load path calls sourceMap = Some (Inr sourceMap)"
  by (induction calls) auto

lemma resolveCallsOpenTofu_returns:
  assumes sub: "\<And>mc. mc \<in> set calls \<Longrightarrow> isLocalTerraformModuleSource (Source mc) \<Longrightarrow>
      parseTerraformLocalModuleSourceOpenTofu depth load (JoinPath [path, Source mc]) \<noteq> None"
  shows "resolveCallsOpenTofu depth load path calls sourceMap \<noteq> None"
  using sub
proof (induction calls arbitrary: sourceMap)
  case Nil
  show ?case by simp
next
  case (Cons mc rest)
  have rest: "resolveCallsOpenTofu depth load path rest sm \<noteq> None" for sm
    by (rule Cons.IH) (simp add: Cons.prems)
  show ?case
  proof (cases "isLocalTerraformModuleSource (Source mc)")
    case False
    then show ?thesis using rest by simp
  next
    case True
    then have "parseTerraformLocalModuleSourceOpenTofu depth load (JoinPath [path, Source mc]) \<noteq> None"
      by (simp add: Cons.prems)
    then show ?thesis
      using True rest by (auto simp: Let_def split: sum.splits)
  qed
qed

lemma resolveCalls_returns:
  assumes sub: "\<And>mc. mc \<in> set calls \<Longrightarrow> isLocalTerraformModuleSource (Source mc) \<Longrightarrow>
      parseTerraformLocalModuleSource depth load (JoinPath [path, Source mc]) \<noteq> None"
  shows "resolveCalls depth load path calls sourceMap \<noteq> None"
  using sub
proof (induction calls arbitrary: sourceMap)
  case Nil
  show ?case by simp
next
  case (Cons mc rest)
  have rest: "resolveCalls depth load path rest sm \<noteq> None" for sm
    by (rule Cons.IH) (simp add: Cons.prems)
  show ?case
  proof (cases "isLocalTerraformModuleSource (Source mc)")
    case False
    then show ?thesis using rest by simp
  next
    case True
    then have "parseTerraformLocalModuleSource depth load (JoinPath [path, Source mc]) \<noteq> None"
      by (simp add: Cons.prems)
    then show ?thesis
      using True rest by (auto simp: Let_def split: sum.splits)
  qed
qed

lemma OpenTofu_returns:
  assumes closed: "\<And>p module diags mc. p \<in> R \<Longrightarrow> load p = (module, diags) \<Longrightarrow>
      \<not> HasErrors diags \<Longrightarrow> mc \<in> set (ModuleCalls module) \<Longrightarrow>
      isLocalTerraformModuleSource (Source mc) \<Longrightarrow>
      JoinPath [p, Source mc] \<in> R \<and> rank (JoinPath [p, Source mc]) < (rank p :: nat)"
  shows "path \<in> R \<Longrightarrow> rank path < depth \<Longrightarrow>
    parseTerraformLocalModuleSourceOpenTofu depth load path \<noteq> None"
proof (induction depth arbitrary: path)
  case 0
  then show ?case by simp
next
  case (Suc depth)
  obtain module diags where l: "load path = (module, diags)" by (cases "load path")
  show ?case
  proof (cases "HasErrors diags")
    case True
    then show ?thesis using l by simp
  next
    case False
    have "resolveCallsOpenTofu depth load path (ModuleCalls module) [] \<noteq> None"
    proof (rule resolveCallsOpenTofu_returns)
      fix mc assume "mc \<in> set (ModuleCalls module)" "isLocalTerraformModuleSource (Source mc)"
      then have c: "JoinPath [path, Source mc] \<in> R \<and>
          rank (JoinPath [path, Source mc]) < rank path"
        using closed [OF Suc.prems(1) l False] by blast
      with Suc.prems have "rank (JoinPath [path, Source mc]) < depth" by simp
      with c show "parseTerraformLocalModuleSourceOpenTofu depth load (JoinPath [path, Source mc])
          \<noteq> None"
        by (intro Suc.IH) simp_all
    qed
    then show ?thesis using l False by simp
  qed
qed

lemma Standard_returns:
  assumes closed: "\<And>p module diags mc. p \<in> R \<Longrightarrow> load p = (module, diags) \<Longrightarrow>
      \<not> HasErrors diags \<Longrightarrow> mc \<in> set (ModuleCalls module) \<Longrightarrow>
      isLocalTerraformModuleSource (Source mc) \<Longrightarrow>
      JoinPath [p, Source mc] \<in> R \<and> rank (JoinPath [p, Source mc]) < (rank p :: nat)"
  shows "path \<in> R \<Longrightarrow> Suc (rank path) < depth \<Longrightarrow>
    parseTerraformLocalModuleSource depth load path \<noteq> None"
proof (induction depth arbitrary: path)
  case 0
  then show ?case by simp
next
  case (Suc depth)
  obtain module diags where l: "load path = (module, diags)" by (cases "load path")
  from Suc.prems have less: "rank path < depth" by simp
  have o: "parseTerraformLocalModuleSourceOpenTofu depth load path \<noteq> None"
  proof (rule OpenTofu_returns [where rank = rank and R = R])
    show "JoinPath [p, Source mc] \<in> R \<and> rank (JoinPath [p, Source mc]) < rank p"
      if "p \<in> R" "load p = (module, diags)" "\<not> HasErrors diags"
        "mc \<in> set (ModuleCalls module)" "isLocalTerraformModuleSource (Source mc)"
      for p module diags mc
      using that by (rule closed)
    show "path \<in> R" by (rule Suc.prems(1))
    show "rank path < depth" by (rule less)
  qed
  show ?case
  proof (cases "HasErrors diags")
    case True
    then show ?thesis using l o by (auto split: sum.splits)
  next
    case False
    have "resolveCalls depth load path (ModuleCalls module) [] \<noteq> None"
    proof (rule resolveCalls_returns)
      fix mc assume "mc \<in> set (ModuleCalls module)" "isLocalTerraformModuleSource (Source mc)"
      then have c: "JoinPath [path, Source mc] \<in> R \<and>
          rank (JoinPath [path, Source mc]) < rank path"
        using closed [OF Suc.prems(1) l False] by blast
      with Suc.prems have "Suc (rank (JoinPath [path, Source mc])) < depth" by simp
      with c show "parseTerraformLocalModuleSource depth load (JoinPath [path, Source mc]) \<noteq> None"
        by (intro Suc.IH) simp_all
    qed
    then show ?thesis using l False o by (auto split: sum.splits)
  qed
qed

lemma distinct_setKey: "distinct sm \<Longrightarrow> distinct (setKey sm k)"
  by (simp add: setKey_def)

lemma distinct_foldl_setKey: "distinct sm \<Longrightarrow> distinct (foldl setKey sm ks)"
  by (induction ks arbitrary: sm) (simp_all add: distinct_setKey)

lemma set_setKey: "set (setKey sm k) = insert k (set sm)"
  by (auto simp: setKey_def)

lemma set_foldl_setKey: "set (foldl setKey sm ks) = set sm \<union> set ks"
  by (induction ks arbitrary: sm) (auto simp: set_setKey)

lemma resolveCallsOpenTofu_distinct:
  "resolveCallsOpenTofu depth load path calls sm = Some (Inr sources) \<Longrightarrow> distinct sm \<Longrightarrow>
     distinct sources"
proof (induction calls arbitrary: sm)
  case Nil
  then show ?case by simp
next
  case (Cons mc rest)
  then show ?case
    by (auto simp: Let_def distinct_foldl_setKey distinct_setKey
        split: if_splits option.splits sum.splits)
qed

lemma resolveCalls_distinct:
  "resolveCalls depth load path calls sm = Some (Inr sources) \<Longrightarrow> distinct sm \<Longrightarrow>
     distinct sources"
proof (induction calls arbitrary: sm)
  case Nil
  then show ?case by simp
next
  case (Cons mc rest)
  then show ?case
    by (auto simp: Let_def distinct_foldl_setKey distinct_setKey
        split: if_splits option.splits sum.splits)
qed

lemma OpenTofu_distinct:
  "parseTerraformLocalModuleSourceOpenTofu depth load path = Some (Inr sources) \<Longrightarrow> distinct sources"
  by (cases depth)
    (auto simp: parseTerraformFilesWithOpenTofuSupport_def
      split: prod.splits if_splits dest: resolveCallsOpenTofu_distinct)

lemma Standard_distinct:
  "parseTerraformLocalModuleSource depth load path = Some (Inr sources) \<Longrightarrow> distinct sources"
  by (cases depth)
    (auto split: prod.splits if_splits option.splits sum.splits
      dest: resolveCalls_distinct OpenTofu_distinct)

lemma resolveCallsOpenTofu_append:
  "resolveCallsOpenTofu depth load path (xs @ ys) sm =
     (case resolveCallsOpenTofu depth load path xs sm of
        None \<Rightarrow> None
      | Some (Inl err) \<Rightarrow> Some (Inl err)
      | Some (Inr sm') \<Rightarrow> resolveCallsOpenTofu depth load path ys sm')"
proof (induction xs arbitrary: sm)
  case Nil
  show ?case by simp
next
  case (Cons mc xs)
  show ?case
    by (simp add: Cons.IH Let_def split: option.splits sum.splits)
qed

lemma resolveCallsOpenTofu_visited:
  "resolveCallsOpenTofu depth load path xs sm = Some (Inr sm') \<Longrightarrow>
     set sm \<subseteq> set sm' \<and>
     (\<forall>mc \<in> set xs. isLocalTerraformModuleSource (Source mc) \<longrightarrow>
        JoinPath [JoinPath [path, Source mc], ''*.tf*''] \<in> set sm')"
proof (induction xs arbitrary: sm)
  case Nil
  then show ?case by simp
next
  case (Cons mc xs)
  let ?g = "JoinPath [JoinPath [path, Source mc], ''*.tf*'']"
  show ?case
  proof (cases "isLocalTerraformModuleSource (Source mc)")
    case False
    with Cons.prems have "resolveCallsOpenTofu depth load path xs sm = Some (Inr sm')" by simp
    from Cons.IH [OF this] False show ?thesis by simp
  next
    case True
    show ?thesis
    proof (cases "?g \<in> set sm")
      case seen: True
      with True Cons.prems have "resolveCallsOpenTofu depth load path xs sm = Some (Inr sm')"
        by (simp add: Let_def)
      from Cons.IH [OF this] seen show ?thesis by auto
    next
      case new: False
      with True Cons.prems obtain subSources where
        "resolveCallsOpenTofu depth load path xs (foldl setKey (setKey sm ?g) subSources) = Some (Inr sm')"
        by (auto simp: Let_def split: option.splits sum.splits)
      from Cons.IH [OF this] show ?thesis
        by (auto simp: set_foldl_setKey set_setKey)
    qed
  qed
qed

lemma resolveCallsOpenTofu_skip:
  "JoinPath [JoinPath [path, Source mc], ''*.tf*''] \<in> set sm \<Longrightarrow>
     resolveCallsOpenTofu depth load path (mc # rest) sm = resolveCallsOpenTofu depth load path rest sm"
  by (simp add: Let_def)

lemma resolveCallsOpenTofu_repeated:
  assumes "mc' \<in> set pre" and "isLocalTerraformModuleSource (Source mc')"
    and "JoinPath [JoinPath [path, Source mc'], ''*.tf*''] =
      JoinPath [JoinPath [path, Source mc], ''*.tf*'']"
  shows "resolveCallsOpenTofu depth load path (pre @ mc # post) sm = resolveCallsOpenTofu depth load path (pre @ post) sm"
proof (cases "resolveCallsOpenTofu depth load path pre sm")
  case None
  then show ?thesis by (simp add: resolveCallsOpenTofu_append)
next
  case (Some r)
  show ?thesis
  proof (cases r)
    case (Inl err)
    with Some show ?thesis by (simp add: resolveCallsOpenTofu_append)
  next
    case (Inr sm')
    with Some assms have "JoinPath [JoinPath [path, Source mc], ''*.tf*''] \<in> set sm'"
      using resolveCallsOpenTofu_visited [of depth load path pre sm sm'] by metis
    then have "resolveCallsOpenTofu depth load path (mc # post) sm' = resolveCallsOpenTofu depth load path post sm'"
      by (rule resolveCallsOpenTofu_skip)
    with Some Inr show ?thesis
      by (simp add: resolveCallsOpenTofu_append del: parseTerraformLocalModuleSourceOpenTofu.simps)
  qed
qed

lemma resolveCalls_append:
  "resolveCalls depth load path (xs @ ys) sm =
     (case resolveCalls depth load path xs sm of
        None \<Rightarrow> None
      | Some (Inl err) \<Rightarrow> Some (Inl err)
      | Some (Inr sm') \<Rightarrow> resolveCalls depth load path ys sm')"
proof (induction xs arbitrary: sm)
  case Nil
  show ?case by simp
next
  case (Cons mc xs)
  show ?case
    by (simp add: Cons.IH Let_def split: option.splits sum.splits)
qed

lemma resolveCalls_visited:
  "resolveCalls depth load path xs sm = Some (Inr sm') \<Longrightarrow>
     set sm \<subseteq> set sm' \<and>
     (\<forall>mc \<in> set xs. isLocalTerraformModuleSource (Source mc) \<longrightarrow>
        JoinPath [JoinPath [path, Source mc], ''*.tf*''] \<in> set sm')"
proof (induction xs arbitrary: sm)
  case Nil
  then show ?case by simp
next
  case (Cons mc xs)
  let ?g = "JoinPath [JoinPath [path, Source mc], ''*.tf*'']"
  show ?case
  proof (cases "isLocalTerraformModuleSource (Source mc)")
    case False
    with Cons.prems have "resolveCalls depth load path xs sm = Some (Inr sm')" by simp
    from Cons.IH [OF this] False show ?thesis by simp
  next
    case True
    show ?thesis
    proof (cases "?g \<in> set sm")
      case seen: True
      with True Cons.prems have "resolveCalls depth load path xs sm = Some (Inr sm')"
        by (simp add: Let_def)
      from Cons.IH [OF this] seen show ?thesis by auto
    next
      case new: False
      with True Cons.prems obtain subSources where
        "resolveCalls depth load path xs (foldl setKey (setKey sm ?g) subSources) = Some (Inr sm')"
        by (auto simp: Let_def split: option.splits sum.splits)
      from Cons.IH [OF this] show ?thesis
        by (auto simp: set_foldl_setKey set_setKey)
    qed
  qed
qed

lemma resolveCalls_skip:
  "JoinPath [JoinPath [path, Source mc], ''*.tf*''] \<in> set sm \<Longrightarrow>
     resolveCalls depth load path (mc # rest) sm = resolveCalls depth load path rest sm"
  by (simp add: Let_def)

lemma resolveCalls_repeated:
  assumes "mc' \<in> set pre" and "isLocalTerraformModuleSource (Source mc')"
    and "JoinPath [JoinPath [path, Source mc'], ''*.tf*''] =
      JoinPath [JoinPath [path, Source mc], ''*.tf*'']"
  shows "resolveCalls depth load path (pre @ mc # post) sm = resolveCalls depth load path (pre @ post) sm"
proof (cases "resolveCalls depth load path pre sm")
  case None
  then show ?thesis by (simp add: resolveCalls_append)
next
  case (Some r)
  show ?thesis
  proof (cases r)
    case (Inl err)
    with Some show ?thesis by (simp add: resolveCalls_append)
  next
    case (Inr sm')
    with Some assms have "JoinPath [JoinPath [path, Source mc], ''*.tf*''] \<in> set sm'"
      using resolveCalls_visited [of depth load path pre sm sm'] by metis
    then have "resolveCalls depth load path (mc # post) sm' = resolveCalls depth load path post sm'"
      by (rule resolveCalls_skip)
    with Some Inr show ?thesis
      by (simp add: resolveCalls_append del: parseTerraformLocalModuleSource.simps)
  qed
qed

lemma resolveCallsOpenTofu_deeper:
  assumes sub: "\<And>p r. parseTerraformLocalModuleSourceOpenTofu depth load p = Some r \<Longrightarrow>
      parseTerraformLocalModuleSourceOpenTofu (Suc depth) load p = Some r"
  shows "resolveCallsOpenTofu depth load path calls sm = Some r \<Longrightarrow>
      resolveCallsOpenTofu (Suc depth) load path calls sm = Some r"
proof (induction calls arbitrary: sm)
  case Nil
  then show ?case by simp
next
  case (Cons mc rest)
  show ?case
  proof (cases "isLocalTerraformModuleSource (Source mc) \<and>
      JoinPath [JoinPath [path, Source mc], ''*.tf*''] \<notin> set sm")
    case False
    then have "resolveCallsOpenTofu depth load path (mc # rest) sm =
        resolveCallsOpenTofu depth load path rest sm"
      and "resolveCallsOpenTofu (Suc depth) load path (mc # rest) sm =
        resolveCallsOpenTofu (Suc depth) load path rest sm"
      by (auto simp: Let_def)
    with Cons show ?thesis by simp
  next
    case True
    from True Cons.prems obtain r1 where
      r1: "parseTerraformLocalModuleSourceOpenTofu depth load (JoinPath [path, Source mc]) = Some r1"
      by (auto simp: Let_def split: option.splits)
    note r2 = sub [OF r1]
    show ?thesis
    proof (cases r1)
      case (Inl err)
      with True Cons.prems r1 r2 show ?thesis
        by (auto simp: Let_def simp del: parseTerraformLocalModuleSourceOpenTofu.simps)
    next
      case (Inr subSources)
      with True Cons.prems r1 have
        "resolveCallsOpenTofu depth load path rest
           (foldl setKey (setKey sm (JoinPath [JoinPath [path, Source mc], ''*.tf*''])) subSources)
         = Some r"
        by (simp add: Let_def)
      from Cons.IH [OF this] True r2 Inr show ?thesis
        by (auto simp: Let_def simp del: parseTerraformLocalModuleSourceOpenTofu.simps)
    qed
  qed
qed

lemma OpenTofu_deeper:
  "parseTerraformLocalModuleSourceOpenTofu depth load path = Some r \<Longrightarrow>
     parseTerraformLocalModuleSourceOpenTofu (Suc depth) load path = Some r"
proof (induction depth arbitrary: path r)
  case 0
  then show ?case by simp
next
  case (Suc depth)
  obtain module diags where l: "load path = (module, diags)" by (cases "load path")
  show ?case
  proof (cases "HasErrors diags")
    case True
    with Suc.prems l show ?thesis by simp
  next
    case False
    with Suc.prems l have "resolveCallsOpenTofu depth load path (ModuleCalls module) [] = Some r"
      by simp
    then have "resolveCallsOpenTofu (Suc depth) load path (ModuleCalls module) [] = Some r"
      by (rule resolveCallsOpenTofu_deeper [rotated]) (rule Suc.IH)
    with l False show ?thesis
      by (simp del: resolveCallsOpenTofu.simps)
  qed
qed

lemma resolveCalls_deeper:
  assumes sub: "\<And>p r. parseTerraformLocalModuleSource depth load p = Some r \<Longrightarrow>
      parseTerraformLocalModuleSource (Suc depth) load p = Some r"
  shows "resolveCalls depth load path calls sm = Some r \<Longrightarrow>
      resolveCalls (Suc depth) load path calls sm = Some r"
proof (induction calls arbitrary: sm)
  case Nil
  then show ?case by simp
next
  case (Cons mc rest)
  show ?case
  proof (cases "isLocalTerraformModuleSource (Source mc) \<and>
      JoinPath [JoinPath [path, Source mc], ''*.tf*''] \<notin> set sm")
    case False
    then have "resolveCalls depth load path (mc # rest) sm = resolveCalls depth load path rest sm"
      and "resolveCalls (Suc depth) load path (mc # rest) sm =
        resolveCalls (Suc depth) load path rest sm"
      by (auto simp: Let_def)
    with Cons show ?thesis by simp
  next
    case True
    from True Cons.prems obtain r1 where
      r1: "parseTerraformLocalModuleSource depth load (JoinPath [path, Source mc]) = Some r1"
      by (auto simp: Let_def split: option.splits)
    note r2 = sub [OF r1]
    show ?thesis
    proof (cases r1)
      case (Inl err)
      with True Cons.prems r1 r2 show ?thesis
        by (auto simp: Let_def simp del: parseTerraformLocalModuleSource.simps)
    next
      case (Inr subSources)
      with True Cons.prems r1 have
        "resolveCalls depth load path rest
           (foldl setKey (setKey sm (JoinPath [JoinPath [path, Source mc], ''*.tf*''])) subSources)
         = Some r"
        by (simp add: Let_def)
      from Cons.IH [OF this] True r2 Inr show ?thesis
        by (auto simp: Let_def simp del: parseTerraformLocalModuleSource.simps)
    qed
  qed
qed

lemma Standard_deeper:
  "parseTerraformLocalModuleSource depth load path = Some r \<Longrightarrow>
     parseTerraformLocalModuleSource (Suc depth) load path = Some r"
proof (induction depth arbitrary: path r)
  case 0
  then show ?case by simp
next
  case (Suc depth)
  from Suc.prems obtain r0 where
    o: "parseTerraformLocalModuleSourceOpenTofu depth load path = Some r0"
    by (auto split: option.splits)
  note o' = OpenTofu_deeper [OF o]
  obtain module diags where l: "load path = (module, diags)" by (cases "load path")
  show ?case
  proof (cases r0)
    case (Inr sources)
    with Suc.prems o o' show ?thesis
      by (auto simp del: parseTerraformLocalModuleSourceOpenTofu.simps)
  next
    case (Inl err)
    show ?thesis
    proof (cases "HasErrors diags")
      case True
      with Suc.prems o o' l Inl show ?thesis
        by (auto simp del: parseTerraformLocalModuleSourceOpenTofu.simps)
    next
      case False
      with Suc.prems o l Inl have "resolveCalls depth load path (ModuleCalls module) [] = Some r"
        by (auto simp del: parseTerraformLocalModuleSourceOpenTofu.simps)
      then have "resolveCalls (Suc depth) load path (ModuleCalls module) [] = Some r"
        by (rule resolveCalls_deeper [rotated]) (rule Suc.IH)
      with l False o' Inl show ?thesis
        by (auto simp del: resolveCalls.simps parseTerraformLocalModuleSourceOpenTofu.simps)
    qed
  qed
qed

text \<open>
  Claim C1. When loading the module fails and some diagnostic's summary contains "Invalid
  provider reference" or "Invalid provider configuration address" (a test on the summary text
  alone), \<open>parseTerraformLocalModuleSourceOpenTofu\<close> succeeds with the pattern \<open>*.tf*\<close>,
  the glob of the module's own Terraform files relative to its directory, and so does
  \<open>parseTerraformLocalModuleSource\<close>; when loading fails and no summary contains either text,
  both return an error.
\<close>

theorem parseTerraformLocalModuleSourceOpenTofu_dialect_fallback:
  "load path = (module, diags) \<Longrightarrow> HasErrors diags \<Longrightarrow>
     ((\<exists>d \<in> set diags. Contains (Summary d) ''Invalid provider reference'' \<or>
         Contains (Summary d) ''Invalid provider configuration address'') \<longrightarrow>
        parseTerraformLocalModuleSourceOpenTofu (Suc depth) load path = Some (Inr [''*.tf*'']) \<and>
        parseTerraformLocalModuleSource (Suc (Suc depth)) load path = Some (Inr [''*.tf*''])) \<and>
     (\<not> (\<exists>d \<in> set diags. Contains (Summary d) ''Invalid provider reference'' \<or>
         Contains (Summary d) ''Invalid provider configuration address'') \<longrightarrow>
        parseTerraformLocalModuleSourceOpenTofu (Suc depth) load path =
          Some (Inl (ConfigInspectError diags)) \<and>
        parseTerraformLocalModuleSource (Suc (Suc depth)) load path =
          Some (Inl (DiagnosticsError diags)))"
  by (simp add: providerRefError_iff parseTerraformFilesWithOpenTofuSupport_def)

text \<open>
  The theorem at \<open>/repo/tofu\<close> and at \<open>/repo/broken\<close>.
\<close>

theorem parseTerraformLocalModuleSourceOpenTofu_dialect_fallback_witness:
  "parseTerraformLocalModuleSourceOpenTofu 1 exampleModules ''/repo/tofu'' = Some (Inr [''*.tf*'']) \<and>
   parseTerraformLocalModuleSourceOpenTofu 1 exampleModules ''/repo/broken'' =
     Some (Inl (ConfigInspectError (snd (exampleModules ''/repo/broken''))))"
proof (intro conjI)
  let ?d = "\<lparr>Severity = DiagError, Summary = ''Invalid provider reference'',
      Detail = ''Provider argument requires a provider name followed by an optional alias.''\<rparr>"
  have l: "exampleModules ''/repo/tofu'' = (\<lparr>ModuleCalls = []\<rparr>, [?d])"
    by (simp add: exampleModules_def)
  have e: "HasErrors [?d]" by simp
  have "Contains (Summary ?d) ''Invalid provider reference''"
    by code_simp
  then have p: "\<exists>d \<in> set [?d]. Contains (Summary d) ''Invalid provider reference'' \<or>
      Contains (Summary d) ''Invalid provider configuration address''"
    by simp
  from parseTerraformLocalModuleSourceOpenTofu_dialect_fallback [where load = exampleModules and path = "''/repo/tofu''"
      and depth = 0, OF l e] p
  show "parseTerraformLocalModuleSourceOpenTofu 1 exampleModules ''/repo/tofu'' =
      Some (Inr [''*.tf*''])"
    by (simp only: One_nat_def)
next
  let ?d = "\<lparr>Severity = DiagError, Summary = ''Argument or block definition required'',
      Detail = ''An argument or block definition is required here.''\<rparr>"
  have l: "exampleModules ''/repo/broken'' = (\<lparr>ModuleCalls = []\<rparr>, [?d])"
    by (simp add: exampleModules_def)
  have e: "HasErrors [?d]" by simp
  have "\<not> Contains (Summary ?d) ''Invalid provider reference''"
    and "\<not> Contains (Summary ?d) ''Invalid provider configuration address''"
    by code_simp+
  then have p: "\<not> (\<exists>d \<in> set [?d]. Contains (Summary d) ''Invalid provider reference'' \<or>
      Contains (Summary d) ''Invalid provider configuration address'')"
    by simp
  from parseTerraformLocalModuleSourceOpenTofu_dialect_fallback [where load = exampleModules and path = "''/repo/broken''"
      and depth = 0, OF l e] p
  have "parseTerraformLocalModuleSourceOpenTofu (Suc 0) exampleModules ''/repo/broken'' =
      Some (Inl (ConfigInspectError [?d]))"
    by blast
  then show "parseTerraformLocalModuleSourceOpenTofu 1 exampleModules ''/repo/broken'' =
      Some (Inl (ConfigInspectError (snd (exampleModules ''/repo/broken''))))"
    by (simp only: One_nat_def l snd_conv)
qed

text \<open>
  Claim C5, as the code has it. For a module that loads without errors and has no module
  call with a local source prefix, resolution succeeds with the empty list of patterns: the
  non-local sources contribute nothing, and neither does the module itself (the glob of a
  module is added by the caller that reaches it through a local call, never by the module's
  own resolution).
\<close>

theorem parseTerraformLocalModuleSource_no_local_sources:
  "load path = (module, diags) \<Longrightarrow> \<not> HasErrors diags \<Longrightarrow>
   \<forall>mc \<in> set (ModuleCalls module). \<not> isLocalTerraformModuleSource (Source mc) \<Longrightarrow>
     parseTerraformLocalModuleSourceOpenTofu (Suc depth) load path = Some (Inr []) \<and>
     parseTerraformLocalModuleSource (Suc (Suc depth)) load path = Some (Inr [])"
  by (simp add: resolveCallsOpenTofu_no_local)

text \<open>
  The theorem at \<open>/repo/app\<close>.
\<close>

theorem parseTerraformLocalModuleSource_no_local_sources_witness:
  "parseTerraformLocalModuleSourceOpenTofu 1 exampleModules ''/repo/app'' = Some (Inr []) \<and>
   parseTerraformLocalModuleSource 2 exampleModules ''/repo/app'' = Some (Inr [])"
proof -
  let ?m = "\<lparr>ModuleCalls = [\<lparr>CallName = ''vpc'', Source = ''terraform-aws-modules/vpc/aws''\<rparr>]\<rparr>"
  have l: "exampleModules ''/repo/app'' = (?m, [])"
    by (simp add: exampleModules_def)
  have e: "\<not> HasErrors []" by simp
  have "\<not> isLocalTerraformModuleSource ''terraform-aws-modules/vpc/aws''"
    by code_simp
  then have n: "\<forall>mc \<in> set (ModuleCalls ?m). \<not> isLocalTerraformModuleSource (Source mc)"
    by simp
  from parseTerraformLocalModuleSource_no_local_sources [where load = exampleModules and path = "''/repo/app''" and module = ?m
      and diags = "[]" and depth = 0, OF l e n]
  show ?thesis
    by (simp only: One_nat_def numeral_2_eq_2)
qed

text \<open>
  Where the claim as written fails: \<open>/repo/app\<close> loads without errors and its only call has
  a registry source, and the resolved patterns are the empty list, not the singleton of the
  module's own glob, whether that is read as \<open>/repo/app/*.tf*\<close> or as \<open>*.tf*\<close>.
\<close>

theorem parseTerraformLocalModuleSource_no_local_sources_counterexample:
  "fst (exampleModules ''/repo/app'') =
     \<lparr>ModuleCalls = [\<lparr>CallName = ''vpc'', Source = ''terraform-aws-modules/vpc/aws''\<rparr>]\<rparr> \<and>
   \<not> HasErrors (snd (exampleModules ''/repo/app'')) \<and>
   \<not> isLocalTerraformModuleSource ''terraform-aws-modules/vpc/aws'' \<and>
   parseTerraformLocalModuleSource 2 exampleModules ''/repo/app'' = Some (Inr []) \<and>
   set ([] :: string list) \<noteq> {JoinPath [''/repo/app'', ''*.tf*'']} \<and>
   set ([] :: string list) \<noteq> {''*.tf*''}"
proof (intro conjI)
  show "fst (exampleModules ''/repo/app'') =
     \<lparr>ModuleCalls = [\<lparr>CallName = ''vpc'', Source = ''terraform-aws-modules/vpc/aws''\<rparr>]\<rparr>"
    by (simp add: exampleModules_def)
  show "\<not> HasErrors (snd (exampleModules ''/repo/app''))"
    by (simp add: exampleModules_def)
  show "\<not> isLocalTerraformModuleSource ''terraform-aws-modules/vpc/aws''"
    by code_simp
  show "parseTerraformLocalModuleSource 2 exampleModules ''/repo/app'' = Some (Inr [])"
    by code_simp
qed simp_all

text \<open>
  Claim C4, as the code has it. Each call of the resolver starts a \<open>sourceMap\<close> of its own,
  so the map bounds nothing across the recursive calls. Resolution of a module returns
  whenever the local references that can be reached from it are well founded: if \<open>R\<close> holds
  the module and, with every module in it that loads, the targets of its local module calls,
  and some rank decreases along each of these calls, then every depth above the rank of the
  module gives the same result. Modules outside \<open>R\<close> play no part, whatever they refer to.
  Within one call the map does deduplicate: a successful result has no pattern twice, and a
  local call whose expanded glob is that of an earlier local call of the same module (the same
  source under another call name, say) is skipped, so that the loop gives the same result,
  with the same patterns and the same error if any, as without the later call.
\<close>

theorem local_module_sources_terminate_when_acyclic:
  assumes "path \<in> R"
    and "\<And>p module diags mc. p \<in> R \<Longrightarrow> load p = (module, diags) \<Longrightarrow> \<not> HasErrors diags \<Longrightarrow>
      mc \<in> set (ModuleCalls module) \<Longrightarrow> isLocalTerraformModuleSource (Source mc) \<Longrightarrow>
      JoinPath [p, Source mc] \<in> R \<and> rank (JoinPath [p, Source mc]) < (rank p :: nat)"
  shows "(\<exists>r. \<forall>depth > rank path.
            parseTerraformLocalModuleSourceOpenTofu depth load path = Some r) \<and>
         (\<exists>r. \<forall>depth > Suc (rank path).
            parseTerraformLocalModuleSource depth load path = Some r) \<and>
         (\<forall>depth sources.
            parseTerraformLocalModuleSourceOpenTofu depth load path = Some (Inr sources) \<or>
            parseTerraformLocalModuleSource depth load path = Some (Inr sources) \<longrightarrow>
              distinct sources) \<and>
         (\<forall>depth pre mc' mc post sourceMap.
            mc' \<in> set pre \<and> isLocalTerraformModuleSource (Source mc') \<and>
            JoinPath [JoinPath [path, Source mc'], ''*.tf*''] =
              JoinPath [JoinPath [path, Source mc], ''*.tf*''] \<longrightarrow>
            resolveCallsOpenTofu depth load path (pre @ mc # post) sourceMap =
              resolveCallsOpenTofu depth load path (pre @ post) sourceMap \<and>
            resolveCalls depth load path (pre @ mc # post) sourceMap =
              resolveCalls depth load path (pre @ post) sourceMap)"
proof (intro conjI)
  have o: "parseTerraformLocalModuleSourceOpenTofu (k + d) load p = Some r"
    if "parseTerraformLocalModuleSourceOpenTofu d load p = Some r" for k d p r
    using that
    by (induction k)
      (simp_all add: OpenTofu_deeper del: parseTerraformLocalModuleSourceOpenTofu.simps)
  have s: "parseTerraformLocalModuleSource (k + d) load p = Some r"
    if "parseTerraformLocalModuleSource d load p = Some r" for k d p r
    using that
    by (induction k) (simp_all add: Standard_deeper del: parseTerraformLocalModuleSource.simps)
  have "parseTerraformLocalModuleSourceOpenTofu (Suc (rank path)) load path \<noteq> None"
    using assms by (intro OpenTofu_returns [where rank = rank and R = R]) auto
  then obtain r where r: "parseTerraformLocalModuleSourceOpenTofu (Suc (rank path)) load path = Some r"
    by auto
  have "parseTerraformLocalModuleSourceOpenTofu depth load path = Some r" if "depth > rank path" for depth
  proof -
    from that have "Suc (rank path) \<le> depth" by simp
    then obtain k where k: "depth = Suc (rank path) + k"
      using le_Suc_ex by blast
    show ?thesis
      unfolding k using o [OF r, of k] by (simp only: add.commute)
  qed
  then show "\<exists>r. \<forall>depth > rank path.
      parseTerraformLocalModuleSourceOpenTofu depth load path = Some r"
    by blast
  have "parseTerraformLocalModuleSource (Suc (Suc (rank path))) load path \<noteq> None"
    using assms by (intro Standard_returns [where rank = rank and R = R]) auto
  then obtain r' where
    r': "parseTerraformLocalModuleSource (Suc (Suc (rank path))) load path = Some r'"
    by auto
  have "parseTerraformLocalModuleSource depth load path = Some r'"
    if "depth > Suc (rank path)" for depth
  proof -
    from that have "Suc (Suc (rank path)) \<le> depth" by simp
    then obtain k where k: "depth = Suc (Suc (rank path)) + k"
      using le_Suc_ex by blast
    show ?thesis
      unfolding k using s [OF r', of k] by (simp only: add.commute)
  qed
  then show "\<exists>r. \<forall>depth > Suc (rank path).
      parseTerraformLocalModuleSource depth load path = Some r"
    by blast
  show "\<forall>depth sources.
      parseTerraformLocalModuleSourceOpenTofu depth load path = Some (Inr sources) \<or>
      parseTerraformLocalModuleSource depth load path = Some (Inr sources) \<longrightarrow>
        distinct sources"
    using OpenTofu_distinct Standard_distinct by blast
  show "\<forall>depth pre mc' mc post sourceMap.
      mc' \<in> set pre \<and> isLocalTerraformModuleSource (Source mc') \<and>
      JoinPath [JoinPath [path, Source mc'], ''*.tf*''] =
        JoinPath [JoinPath [path, Source mc], ''*.tf*''] \<longrightarrow>
      resolveCallsOpenTofu depth load path (pre @ mc # post) sourceMap =
        resolveCallsOpenTofu depth load path (pre @ post) sourceMap \<and>
      resolveCalls depth load path (pre @ mc # post) sourceMap =
        resolveCalls depth load path (pre @ post) sourceMap"
    using resolveCallsOpenTofu_repeated resolveCalls_repeated by blast
qed

text \<open>
  The theorem in the tree that also holds the cycle of \<open>/repo/a\<close> and \<open>/repo/b\<close>, at
  \<open>/repo/live\<close> with \<open>R\<close> the three modules reachable from it, of ranks 2, 1 and 0. The
  result at depth 5 follows from the one computed at the smallest sufficient depth; its
  patterns are given as a set, since the order of the result is that of Go's map iteration.
  The calls \<open>db\<close> and \<open>replica\<close> of \<open>/repo/live\<close> have the same source, and the loop gives
  the same with and without \<open>replica\<close>.
\<close>

theorem local_module_sources_terminate_when_acyclic_witness:
  "(\<exists>sources. parseTerraformLocalModuleSourceOpenTofu 5 mixedModules ''/repo/live'' =
       Some (Inr sources) \<and>
     set sources = {''/repo/live/modules/db/*.tf*'', ''/repo/live/modules/net/*.tf*''}) \<and>
   (\<exists>sources. parseTerraformLocalModuleSource 5 mixedModules ''/repo/live'' =
       Some (Inr sources) \<and>
     set sources = {''/repo/live/modules/db/*.tf*'', ''/repo/live/modules/net/*.tf*''}) \<and>
   resolveCalls 2 mixedModules ''/repo/live''
     [\<lparr>CallName = ''db'', Source = ''./modules/db''\<rparr>,
      \<lparr>CallName = ''replica'', Source = ''./modules/db''\<rparr>,
      \<lparr>CallName = ''vpc'', Source = ''terraform-aws-modules/vpc/aws''\<rparr>] [] =
   resolveCalls 2 mixedModules ''/repo/live''
     [\<lparr>CallName = ''db'', Source = ''./modules/db''\<rparr>,
      \<lparr>CallName = ''vpc'', Source = ''terraform-aws-modules/vpc/aws''\<rparr>] []"
proof -
  let ?R = "{''/repo/live'', ''/repo/live/modules/db'', ''/repo/live/modules/net''}"
  let ?db = "\<lparr>CallName = ''db'', Source = ''./modules/db''\<rparr>"
  let ?replica = "\<lparr>CallName = ''replica'', Source = ''./modules/db''\<rparr>"
  let ?vpc = "\<lparr>CallName = ''vpc'', Source = ''terraform-aws-modules/vpc/aws''\<rparr>"
  have j: "JoinPath [''/repo/live'', ''./modules/db''] = ''/repo/live/modules/db''"
    "JoinPath [''/repo/live/modules/db'', ''../net''] = ''/repo/live/modules/net''"
    by code_simp+
  have nl: "\<not> isLocalTerraformModuleSource ''terraform-aws-modules/vpc/aws''"
    by code_simp
  have lo: "isLocalTerraformModuleSource ''./modules/db''"
    by code_simp
  have rk: "JoinPath [p, Source mc] \<in> ?R \<and> exampleRank (JoinPath [p, Source mc]) < exampleRank p"
    if "p \<in> ?R" "mixedModules p = (module, diags)" "\<not> HasErrors diags"
      "mc \<in> set (ModuleCalls module)" "isLocalTerraformModuleSource (Source mc)"
    for p module diags mc
    using that
    by (auto simp: mixedModules_def exampleModules_def exampleRank_def j nl split: if_splits)
  have inR: "''/repo/live'' \<in> ?R" by simp
  have r: "exampleRank ''/repo/live'' = 2"
    by (simp add: exampleRank_def)
  have o3: "parseTerraformLocalModuleSourceOpenTofu 3 mixedModules ''/repo/live'' =
      Some (Inr [''/repo/live/modules/db/*.tf*'', ''/repo/live/modules/net/*.tf*''])"
    by code_simp
  have s4: "parseTerraformLocalModuleSource 4 mixedModules ''/repo/live'' =
      Some (Inr [''/repo/live/modules/db/*.tf*'', ''/repo/live/modules/net/*.tf*''])"
    by code_simp
  have "\<exists>a. \<forall>depth > exampleRank ''/repo/live''.
      parseTerraformLocalModuleSourceOpenTofu depth mixedModules ''/repo/live'' = Some a"
    by (rule local_module_sources_terminate_when_acyclic [where load = mixedModules
          and rank = exampleRank and R = ?R and path = "''/repo/live''", THEN conjunct1])
      (rule inR, rule rk)
  then obtain a where
    a: "\<forall>depth > exampleRank ''/repo/live''.
      parseTerraformLocalModuleSourceOpenTofu depth mixedModules ''/repo/live'' = Some a"
    by blast
  have "\<exists>b. \<forall>depth > Suc (exampleRank ''/repo/live'').
      parseTerraformLocalModuleSource depth mixedModules ''/repo/live'' = Some b"
    by (rule local_module_sources_terminate_when_acyclic [where load = mixedModules
          and rank = exampleRank and R = ?R and path = "''/repo/live''",
          THEN conjunct2, THEN conjunct1])
      (rule inR, rule rk)
  then obtain b where
    b: "\<forall>depth > Suc (exampleRank ''/repo/live'').
      parseTerraformLocalModuleSource depth mixedModules ''/repo/live'' = Some b"
    by blast
  from a r have "parseTerraformLocalModuleSourceOpenTofu 3 mixedModules ''/repo/live'' = Some a"
    and "parseTerraformLocalModuleSourceOpenTofu 5 mixedModules ''/repo/live'' = Some a"
    by simp_all
  with o3 have o5: "parseTerraformLocalModuleSourceOpenTofu 5 mixedModules ''/repo/live'' =
      Some (Inr [''/repo/live/modules/db/*.tf*'', ''/repo/live/modules/net/*.tf*''])"
    by simp
  from b r have "parseTerraformLocalModuleSource 4 mixedModules ''/repo/live'' = Some b"
    and "parseTerraformLocalModuleSource 5 mixedModules ''/repo/live'' = Some b"
    by simp_all
  with s4 have s5: "parseTerraformLocalModuleSource 5 mixedModules ''/repo/live'' =
      Some (Inr [''/repo/live/modules/db/*.tf*'', ''/repo/live/modules/net/*.tf*''])"
    by simp
  have d: "\<forall>depth pre mc' mc post sourceMap.
      mc' \<in> set pre \<and> isLocalTerraformModuleSource (Source mc') \<and>
      JoinPath [JoinPath [''/repo/live'', Source mc'], ''*.tf*''] =
        JoinPath [JoinPath [''/repo/live'', Source mc], ''*.tf*''] \<longrightarrow>
      resolveCallsOpenTofu depth mixedModules ''/repo/live'' (pre @ mc # post) sourceMap =
        resolveCallsOpenTofu depth mixedModules ''/repo/live'' (pre @ post) sourceMap \<and>
      resolveCalls depth mixedModules ''/repo/live'' (pre @ mc # post) sourceMap =
        resolveCalls depth mixedModules ''/repo/live'' (pre @ post) sourceMap"
    by (rule local_module_sources_terminate_when_acyclic [where load = mixedModules
          and rank = exampleRank and R = ?R and path = "''/repo/live''",
          THEN conjunct2, THEN conjunct2, THEN conjunct2])
      (rule inR, rule rk)
  have "?db \<in> set [?db] \<and> isLocalTerraformModuleSource (Source ?db) \<and>
      JoinPath [JoinPath [''/repo/live'', Source ?db], ''*.tf*''] =
        JoinPath [JoinPath [''/repo/live'', Source ?replica], ''*.tf*'']"
    using lo by simp
  with d have "resolveCalls 2 mixedModules ''/repo/live'' ([?db] @ ?replica # [?vpc]) [] =
      resolveCalls 2 mixedModules ''/repo/live'' ([?db] @ [?vpc]) []"
    by blast
  then have dd: "resolveCalls 2 mixedModules ''/repo/live'' [?db, ?replica, ?vpc] [] =
      resolveCalls 2 mixedModules ''/repo/live'' [?db, ?vpc] []"
    by (simp only: append_Cons append_Nil)
  from o5 s5 dd show ?thesis
    by (intro conjI exI [where x = "[''/repo/live/modules/db/*.tf*'', ''/repo/live/modules/net/*.tf*'']"])
      (simp_all only: list.set insert_commute)
qed

lemma cyclicModules_OpenTofu:
  "parseTerraformLocalModuleSourceOpenTofu depth cyclicModules ''/repo/a'' = None \<and>
   parseTerraformLocalModuleSourceOpenTofu depth cyclicModules ''/repo/b'' = None"
proof (induction depth)
  case 0
  show ?case by simp
next
  case (Suc depth)
  have j: "JoinPath [''/repo/a'', ''../b''] = ''/repo/b''" "JoinPath [''/repo/b'', ''../a''] = ''/repo/a''"
    by code_simp+
  have l: "isLocalTerraformModuleSource ''../b''" "isLocalTerraformModuleSource ''../a''"
    by code_simp+
  from Suc show ?case
    by (simp add: cyclicModules_def j l)
qed

text \<open>
  Where the claim as written fails: \<open>/repo/a\<close> and \<open>/repo/b\<close> load without errors and call
  each other. The call for \<open>/repo/a\<close> enters \<open>/repo/b\<close>, whose fresh \<open>sourceMap\<close> does not
  hold the glob of \<open>/repo/a\<close>, and so on: no depth is enough, neither function returns.
\<close>

theorem local_module_sources_cyclic_counterexample:
  "\<forall>depth.
     parseTerraformLocalModuleSourceOpenTofu depth cyclicModules ''/repo/a'' = None \<and>
     parseTerraformLocalModuleSource depth cyclicModules ''/repo/a'' = None"
proof
  fix depth
  have "parseTerraformLocalModuleSource depth cyclicModules ''/repo/a'' = None"
    by (cases depth) (simp_all add: cyclicModules_OpenTofu del: parseTerraformLocalModuleSourceOpenTofu.simps)
  then show "parseTerraformLocalModuleSourceOpenTofu depth cyclicModules ''/repo/a'' = None \<and>
     parseTerraformLocalModuleSource depth cyclicModules ''/repo/a'' = None"
    by (simp add: cyclicModules_OpenTofu del: parseTerraformLocalModuleSourceOpenTofu.simps)
qed

section \<open>Properties of the stack marker files\<close>

lemma fst_ConvertStackHclToStacks:
  "fst (ConvertStackHclToStacks exists_not definitions gitRoot) =
     map (\<lambda>def. fst (convertDefinition exists_not gitRoot def)) definitions"
  by (induction definitions) (auto split: prod.splits)

lemma Stack_Name_convertDefinition:
  "Stack_Name (fst (convertDefinition exists_not gitRoot def)) = stackNameOf def"
  by (simp add: convertDefinition_def split: prod.splits)

text \<open>
  Claim C8. When the decoded marker file declares more than one stack block,
  \<open>ParseStackHclFile\<close> succeeds, its definition carries the first block in declaration order,
  and the only trace of the others is one warning. When a definition has at least one unit
  and no stack block, the stack that \<open>ConvertStackHclToStacks\<close> produces for it (at the same
  position in the result) is named after the directory that contains the file:
  \<open>filepath.Base(filepath.Dir(FilePath))\<close>.
\<close>

theorem stack_marker_first_block_and_directory_name:
  "(decodeStackHcl w path = Inr parsed \<and>
    ParsedStackHcl_Stacks parsed = first # second # others \<longrightarrow>
      ParseStackHclFile w path =
        Inr (\<lparr>StackHclDefinition_FilePath = path,
              StackHclDefinition_Units = ParsedStackHcl_Units parsed,
              StackHclDefinition_StackBlock = Some first\<rparr>,
             [MultipleStackBlocks path (StackBlock_Name first)])) \<and>
   (i < length definitions \<and> StackHclDefinition_StackBlock (definitions ! i) = None \<and>
    StackHclDefinition_Units (definitions ! i) \<noteq> [] \<longrightarrow>
      length (fst (ConvertStackHclToStacks exists_not definitions gitRoot)) = length definitions \<and>
      Stack_Name (fst (ConvertStackHclToStacks exists_not definitions gitRoot) ! i) =
        Base (Dir (StackHclDefinition_FilePath (definitions ! i))))"
  by (simp add: ParseStackHclFile_def extractStackBlock_def fst_ConvertStackHclToStacks
      Stack_Name_convertDefinition stackNameOf_def)

text \<open>
  The theorem at that file, and at a definition for the same path with the unit and no
  stack block, whose stack is named \<open>prod\<close>.
\<close>

theorem stack_marker_first_block_and_directory_name_witness:
  "ParseStackHclFile exampleWorld ''/repo/envs/prod/terragrunt.stack.hcl'' =
     Inr (\<lparr>StackHclDefinition_FilePath = ''/repo/envs/prod/terragrunt.stack.hcl'',
           StackHclDefinition_Units =
             [\<lparr>UnitBlock_Name = ''vpc'', UnitBlock_Source = None, UnitBlock_Path = Some ''vpc''\<rparr>],
           StackHclDefinition_StackBlock =
             Some \<lparr>StackBlock_Name = ''production'',
                   StackBlock_Description = Some ''Production environment''\<rparr>\<rparr>,
          [MultipleStackBlocks ''/repo/envs/prod/terragrunt.stack.hcl'' ''production'']) \<and>
   Stack_Name (fst (ConvertStackHclToStacks (\<lambda>p. False)
       [\<lparr>StackHclDefinition_FilePath = ''/repo/envs/prod/terragrunt.stack.hcl'',
          StackHclDefinition_Units =
            [\<lparr>UnitBlock_Name = ''vpc'', UnitBlock_Source = None, UnitBlock_Path = Some ''vpc''\<rparr>],
          StackHclDefinition_StackBlock = None\<rparr>] ''/repo'') ! 0) = ''prod''"
proof
  let ?path = "''/repo/envs/prod/terragrunt.stack.hcl''"
  let ?units = "[\<lparr>UnitBlock_Name = ''vpc'', UnitBlock_Source = None, UnitBlock_Path = Some ''vpc''\<rparr>]"
  let ?first = "\<lparr>StackBlock_Name = ''production'',
      StackBlock_Description = Some ''Production environment''\<rparr>"
  let ?second = "\<lparr>StackBlock_Name = ''staging'', StackBlock_Description = None\<rparr>"
  let ?parsed = "\<lparr>ParsedStackHcl_Units = ?units, ParsedStackHcl_Stacks = [?first, ?second]\<rparr>"
  have e: "Ext ?path = ''.hcl''" by code_simp
  have d: "decodeStackHcl exampleWorld ?path = Inr ?parsed"
    by (simp add: decodeStackHcl_def parseHclForStack_def exampleWorld_def e)
  from stack_marker_first_block_and_directory_name
    [where w = exampleWorld and path = ?path and parsed = ?parsed and first = ?first
      and second = ?second and others = "[]", THEN conjunct1] d
  show "ParseStackHclFile exampleWorld ?path =
     Inr (\<lparr>StackHclDefinition_FilePath = ?path, StackHclDefinition_Units = ?units,
           StackHclDefinition_StackBlock = Some ?first\<rparr>,
          [MultipleStackBlocks ?path ''production''])"
    by simp
next
  let ?path = "''/repo/envs/prod/terragrunt.stack.hcl''"
  let ?units = "[\<lparr>UnitBlock_Name = ''vpc'', UnitBlock_Source = None, UnitBlock_Path = Some ''vpc''\<rparr>]"
  let ?def = "\<lparr>StackHclDefinition_FilePath = ?path, StackHclDefinition_Units = ?units,
      StackHclDefinition_StackBlock = None\<rparr>"
  have b: "Base (Dir ?path) = ''prod''" by code_simp
  from stack_marker_first_block_and_directory_name
    [where definitions = "[?def]" and i = 0 and exists_not = "\<lambda>p. False" and gitRoot = "''/repo''",
      THEN conjunct2]
  show "Stack_Name (fst (ConvertStackHclToStacks (\<lambda>p. False) [?def] ''/repo'') ! 0) = ''prod''"
    by (simp add: b del: ConvertStackHclToStacks.simps)
qed

section \<open>Properties of GenerateStackProject\<close>

text \<open>
  Claim C9. The project that \<open>GenerateStackProject\<close> produces for a stack takes its name from
  the stack and its workflow, workspace, Terraform version and autoplan flag from the stack's
  configuration. The apply requirements are those of the configuration, and absent when that
  list is empty; the execution-order group is the stack's execution order, and absent when
  that is not positive; depends_on is the stack's list of dependencies, and absent when the
  stack has none.
\<close>

theorem GenerateStackProject_copies_configuration:
  "AtlantisProject_Name (GenerateStackProject uniqueStrings sm stack) = Stack_Name stack \<and>
   AtlantisProject_Workflow (GenerateStackProject uniqueStrings sm stack) =
     StackAtlantisConfig_Workflow (Stack_AtlantisConfig stack) \<and>
   AtlantisProject_Workspace (GenerateStackProject uniqueStrings sm stack) =
     StackAtlantisConfig_Workspace (Stack_AtlantisConfig stack) \<and>
   AtlantisProject_TerraformVersion (GenerateStackProject uniqueStrings sm stack) =
     StackAtlantisConfig_TerraformVersion (Stack_AtlantisConfig stack) \<and>
   AutoplanConfig_Enabled (AtlantisProject_Autoplan (GenerateStackProject uniqueStrings sm stack)) =
     StackAtlantisConfig_AutoPlan (Stack_AtlantisConfig stack) \<and>
   AtlantisProject_ApplyRequirements (GenerateStackProject uniqueStrings sm stack) =
     (if StackAtlantisConfig_ApplyRequirements (Stack_AtlantisConfig stack) = [] then None
      else Some (StackAtlantisConfig_ApplyRequirements (Stack_AtlantisConfig stack))) \<and>
   AtlantisProject_ExecutionOrderGroup (GenerateStackProject uniqueStrings sm stack) =
     (if Stack_ExecutionOrder stack \<le> 0 then None else Some (Stack_ExecutionOrder stack)) \<and>
   AtlantisProject_DependsOn (GenerateStackProject uniqueStrings sm stack) =
     (if Stack_Dependencies stack = [] then None else Some (Stack_Dependencies stack))"
  by (simp add: GenerateStackProject_def Let_def)

text \<open>The theorem at the test's stack, and at the same stack with the optional settings unset.\<close>

theorem GenerateStackProject_copies_configuration_witness:
  "AtlantisProject_Workflow (GenerateStackProject remdups testManager testStack) = ''test-workflow'' \<and>
   AtlantisProject_Workspace (GenerateStackProject remdups testManager testStack) = ''test-workspace'' \<and>
   AutoplanConfig_Enabled (AtlantisProject_Autoplan (GenerateStackProject remdups testManager testStack)) \<and>
   AtlantisProject_ApplyRequirements (GenerateStackProject remdups testManager testStack) =
     Some [''approved''] \<and>
   AtlantisProject_ExecutionOrderGroup (GenerateStackProject remdups testManager testStack) = Some 10 \<and>
   AtlantisProject_DependsOn (GenerateStackProject remdups testManager testStack) =
     Some [''dependency-stack''] \<and>
   AtlantisProject_ApplyRequirements (GenerateStackProject remdups testManager
     (testStack\<lparr>Stack_AtlantisConfig := StackAtlantisConfig_zero, Stack_ExecutionOrder := 0,
        Stack_Dependencies := []\<rparr>)) = None \<and>
   AtlantisProject_ExecutionOrderGroup (GenerateStackProject remdups testManager
     (testStack\<lparr>Stack_AtlantisConfig := StackAtlantisConfig_zero, Stack_ExecutionOrder := 0,
        Stack_Dependencies := []\<rparr>)) = None \<and>
   AtlantisProject_DependsOn (GenerateStackProject remdups testManager
     (testStack\<lparr>Stack_AtlantisConfig := StackAtlantisConfig_zero, Stack_ExecutionOrder := 0,
        Stack_Dependencies := []\<rparr>)) = None"
  using GenerateStackProject_copies_configuration [of remdups testManager testStack]
    GenerateStackProject_copies_configuration [of remdups testManager
      "testStack\<lparr>Stack_AtlantisConfig := StackAtlantisConfig_zero, Stack_ExecutionOrder := 0,
         Stack_Dependencies := []\<rparr>"]
  by (simp add: testStack_def StackAtlantisConfig_zero_def)

end
